theory Spec2Isabelle
  imports Main "HOL-Library.Word"
begin

section \<open>Constants of DataChannel\<close>

text \<open>
  \<^verbatim>\<open>DataChannel.CHUNK_SIZE_MAX = 1024 * 16\<close>, \<^verbatim>\<open>DataChannel.MESSAGE_SIZE_MAX = 10 * 1024 * 1024\<close>,
  \<^verbatim>\<open>DataChannel.CHUNK_TIMEOUT = 1000 * 5\<close> and \<^verbatim>\<open>DataChannel.MESSAGE_TIMEOUT\<close> as in
  DataChannel.js, lines 273-276.
\<close>

definition CHUNK_SIZE_MAX :: nat where
  "CHUNK_SIZE_MAX = 1024 * 16"

definition MESSAGE_SIZE_MAX :: nat where
  "MESSAGE_SIZE_MAX = 10 * 1024 * 1024"

definition CHUNK_TIMEOUT :: nat where
  "CHUNK_TIMEOUT = 1000 * 5"

definition MESSAGE_TIMEOUT :: nat where
  "MESSAGE_TIMEOUT = (MESSAGE_SIZE_MAX div CHUNK_SIZE_MAX) * CHUNK_TIMEOUT"

text \<open>
  Modelled from the spec: \<^verbatim>\<open>NumberUtils.UINT8_MAX\<close> is used by DataChannel.js but class
  NumberUtils is not among the sources; the spec gives its value, 255.
\<close>

definition UINT8_MAX :: nat where
  "UINT8_MAX = 255"

text \<open>
  The remainder operator \<^verbatim>\<open>%\<close> of JavaScript truncates towards zero: the result has the
  sign of the dividend.
\<close>

definition js_rem :: "int \<Rightarrow> int \<Rightarrow> int" where
  "js_rem a b = sgn a * (\<bar>a\<bar> mod \<bar>b\<bar>)"

section \<open>Byte arrays\<close>

type_synonym byte = "8 word"

text \<open>
  A \<^verbatim>\<open>Uint8Array\<close> is a view of \<^verbatim>\<open>byteLength\<close> bytes, starting at \<^verbatim>\<open>byteOffset\<close>, on an
  underlying \<^verbatim>\<open>ArrayBuffer\<close>. The bytes the view holds are those of \<open>bytes_of\<close>.
\<close>

record Uint8Array =
  u8_buffer :: "byte list"
  byteOffset :: nat
  byteLength :: nat

definition wf_view :: "Uint8Array \<Rightarrow> bool" where
  "wf_view a = (byteOffset a + byteLength a \<le> length (u8_buffer a))"

definition bytes_of :: "Uint8Array \<Rightarrow> byte list" where
  "bytes_of a = take (byteLength a) (drop (byteOffset a) (u8_buffer a))"

definition from_bytes :: "byte list \<Rightarrow> Uint8Array" where
  "from_bytes bs = \<lparr>u8_buffer = bs, byteOffset = 0, byteLength = length bs\<rparr>"

datatype exn = AssertionError | RangeError

text \<open>
  \<^verbatim>\<open>new Uint8Array(buffer, offset, length)\<close>: the bytes of the new view, or a RangeError
  when the view would reach beyond the buffer.
\<close>

definition Uint8Array_new :: "byte list \<Rightarrow> nat \<Rightarrow> nat \<Rightarrow> exn + byte list" where
  "Uint8Array_new buf off len =
     (if off + len \<le> length buf then Inr (take len (drop off buf)) else Inl RangeError)"

section \<open>DataChannel: the state\<close>

datatype ReadyState = CONNECTING | OPEN | CLOSING | CLOSED

text \<open>
  Class ExpectedMessage (DataChannel.js, lines 279-293). The timeout callback is a
  function of the caller; the model keeps a handle for it and records its calls.
\<close>

record ExpectedMessage =
  em_id :: string
  em_types :: "nat list"
  em_timeoutCallback :: nat
  em_msgTimeout :: nat
  em_chunkTimeout :: nat

text \<open>
  Modelled from the spec: class SerialBuffer is not among the sources. A buffer of
  \<open>sb_byteLength\<close> bytes whose first \<open>writePos\<close> bytes are \<open>sb_written\<close>; the bytes after
  the write position are still zero.
\<close>

record SerialBuffer =
  sb_byteLength :: nat
  sb_written :: "byte list"

definition SerialBuffer_new :: "nat \<Rightarrow> SerialBuffer" where
  "SerialBuffer_new n = \<lparr>sb_byteLength = n, sb_written = []\<rparr>"

definition writePos :: "SerialBuffer \<Rightarrow> nat" where
  "writePos b = length (sb_written b)"

definition sb_write :: "SerialBuffer \<Rightarrow> byte list \<Rightarrow> SerialBuffer" where
  "sb_write b chunk = b\<lparr>sb_written := sb_written b @ chunk\<rparr>"

definition sb_buffer :: "SerialBuffer \<Rightarrow> byte list" where
  "sb_buffer b = sb_written b @ replicate (sb_byteLength b - writePos b) 0"

text \<open>
  A timer of class Timers holds the function to call, always
  \<^verbatim>\<open>this._onTimeout.bind(this, expectedMsg)\<close> here, and its delay.
\<close>

type_synonym timer = "ExpectedMessage \<times> nat"

text \<open>
  The fields of the constructor (DataChannel.js, lines 5-30), and the ready state that
  the abstract getter \<^verbatim>\<open>readyState\<close> reads.
\<close>

record DataChannel =
  buffer :: "SerialBuffer option"
  msgType :: nat
  receivingTag :: int
  sendingTag :: nat
  expectedMessagesByType :: "nat \<rightharpoonup> ExpectedMessage"
  timers :: "string \<rightharpoonup> timer"
  lastChunkReceivedAt :: nat
  readyState :: ReadyState

definition DataChannel_new :: "ReadyState \<Rightarrow> DataChannel" where
  "DataChannel_new rs =
     \<lparr>buffer = None, msgType = 0, receivingTag = - 1, sendingTag = 0,
      expectedMessagesByType = Map.empty, timers = Map.empty,
      lastChunkReceivedAt = 0, readyState = rs\<rparr>"

section \<open>DataChannel: sending\<close>

text \<open>
  The loop of \<^verbatim>\<open>_sendChunked\<close> (DataChannel.js, lines 231-251), at \<open>remaining\<close> bytes left.
  It returns the buffers handed to \<^verbatim>\<open>sendChunk\<close>, in order, and the exception that ended
  the loop, if any. The chunk is cut from \<^verbatim>\<open>msg.buffer\<close> at \<^verbatim>\<open>msg.byteLength - remaining\<close>.
\<close>

function sendChunked_loop :: "Uint8Array \<Rightarrow> nat \<Rightarrow> nat \<Rightarrow> byte list list \<times> exn option" where
  "sendChunked_loop msg tag remaining =
     (if remaining > 0 then
        (let len = (if remaining + 1 \<ge> CHUNK_SIZE_MAX then CHUNK_SIZE_MAX - 1 else remaining)
         in case Uint8Array_new (u8_buffer msg) (byteLength msg - remaining) len of
              Inl e \<Rightarrow> ([], Some e)
            | Inr chunk \<Rightarrow>
                (let (sent, e) = sendChunked_loop msg tag (remaining - length chunk)
                 in ((of_nat tag # chunk) # sent, e)))
      else ([], None))"
  by pat_completeness auto
termination
proof (relation "measure (\<lambda>(msg, tag, remaining). remaining)")
  show "wf (measure (\<lambda>(msg, tag, remaining). remaining))"
    by simp
next
  fix msg :: Uint8Array and tag remaining len :: nat and chunk :: "byte list"
  assume pos: "0 < remaining"
    and len: "len = (if CHUNK_SIZE_MAX \<le> remaining + 1 then CHUNK_SIZE_MAX - 1 else remaining)"
    and new: "Uint8Array_new (u8_buffer msg) (byteLength msg - remaining) len = Inr chunk"
  from new have "length chunk = len"
    by (auto simp: Uint8Array_new_def split: if_splits)
  moreover from pos len have "0 < len"
    by (simp add: CHUNK_SIZE_MAX_def)
  ultimately show "((msg, tag, remaining - length chunk), (msg, tag, remaining))
      \<in> measure (\<lambda>(msg, tag, remaining). remaining)"
    using pos by simp
qed

definition sendChunked :: "Uint8Array \<Rightarrow> nat \<Rightarrow> byte list list \<times> exn option" where
  "sendChunked msg tag = sendChunked_loop msg tag (byteLength msg)"

text \<open>
  \<^verbatim>\<open>send\<close> (DataChannel.js, lines 218-224): the new state, the buffers handed to
  \<^verbatim>\<open>sendChunk\<close> and the exception thrown, if any. \<^verbatim>\<open>Assert.that\<close> throws when its condition
  is false.
\<close>

definition send :: "DataChannel \<Rightarrow> Uint8Array \<Rightarrow> DataChannel \<times> byte list list \<times> exn option" where
  "send st msg =
     (if \<not> byteLength msg \<le> MESSAGE_SIZE_MAX then (st, [], Some AssertionError)
      else
        (let tag = sendingTag st;
             st' = st\<lparr>sendingTag := nat (js_rem (int (sendingTag st) + 1) (int UINT8_MAX))\<rparr>;
             (sent, e) = sendChunked msg tag
         in (st', sent, e)))"


section \<open>DataChannel: timers and expectations\<close>

text \<open>
  Modelled from the spec: class Timers is not among the sources. It keeps single-shot
  timers under string keys; \<^verbatim>\<open>clearTimeout\<close> cancels the timer of a key, \<^verbatim>\<open>resetTimeout\<close>
  cancels it and arms a new one, \<^verbatim>\<open>clearAll\<close> cancels all of them.
\<close>

definition clearTimeout :: "string \<Rightarrow> (string \<rightharpoonup> timer) \<Rightarrow> (string \<rightharpoonup> timer)" where
  "clearTimeout key tm = tm(key := None)"

definition resetTimeout :: "string \<Rightarrow> ExpectedMessage \<Rightarrow> nat \<Rightarrow> (string \<rightharpoonup> timer) \<Rightarrow> (string \<rightharpoonup> timer)" where
  "resetTimeout key expectedMsg waitTime tm = (clearTimeout key tm)(key \<mapsto> (expectedMsg, waitTime))"

definition clearAll :: "(string \<rightharpoonup> timer) \<Rightarrow> (string \<rightharpoonup> timer)" where
  "clearAll tm = Map.empty"

text \<open>
  \<^verbatim>\<open>types.join(':')\<close>: the decimal numerals of the types, separated by colons.
\<close>

function string_of_nat :: "nat \<Rightarrow> string" where
  "string_of_nat n =
     (if n < 10 then [''0123456789'' ! n]
      else string_of_nat (n div 10) @ [''0123456789'' ! (n mod 10)])"
  by pat_completeness auto
termination
  by (relation "measure (\<lambda>n. n)") auto

fun join :: "string \<Rightarrow> string list \<Rightarrow> string" where
  "join sep [] = []"
| "join sep [x] = x"
| "join sep (x # y # ys) = x @ sep @ join sep (y # ys)"

definition ExpectedMessage_new :: "nat list \<Rightarrow> nat \<Rightarrow> nat \<Rightarrow> nat \<Rightarrow> ExpectedMessage" where
  "ExpectedMessage_new types timeoutCallback msgTimeout chunkTimeout =
     \<lparr>em_id = join '':'' (map string_of_nat types), em_types = types,
      em_timeoutCallback = timeoutCallback, em_msgTimeout = msgTimeout,
      em_chunkTimeout = chunkTimeout\<rparr>"

definition chunk_key :: "ExpectedMessage \<Rightarrow> string" where
  "chunk_key expectedMsg = ''chunk-'' @ em_id expectedMsg"

definition msg_key :: "ExpectedMessage \<Rightarrow> string" where
  "msg_key expectedMsg = ''msg-'' @ em_id expectedMsg"

text \<open>What the channel does that its environment can see, in order.\<close>

datatype message_text =
    ChunkTooLarge
  | ExcessiveMessageSize nat
  | NotNextTag int nat
  | WrongMessageTag nat int
  | ChunkLargerThanRemaining
  | ParseError string
  | TimeoutReceiving

datatype event =
    FireMessage "byte list"
  | FireChunk SerialBuffer
  | FireError message_text
  | FireClose
  | LogE message_text
  | TimeoutCallback nat

definition isExpectingMessage :: "DataChannel \<Rightarrow> nat \<Rightarrow> bool" where
  "isExpectingMessage st type = (expectedMessagesByType st type \<noteq> None)"

definition delete_types :: "nat list \<Rightarrow> (nat \<rightharpoonup> ExpectedMessage) \<Rightarrow> (nat \<rightharpoonup> ExpectedMessage)" where
  "delete_types types m = fold (\<lambda>type m. m(type := None)) types m"

definition set_types :: "nat list \<Rightarrow> ExpectedMessage \<Rightarrow> (nat \<rightharpoonup> ExpectedMessage) \<Rightarrow> (nat \<rightharpoonup> ExpectedMessage)" where
  "set_types types expectedMsg m = fold (\<lambda>type m. m(type \<mapsto> expectedMsg)) types m"

text \<open>\<^verbatim>\<open>confirmExpectedMessage\<close> (DataChannel.js, lines 44-57).\<close>

definition confirmExpectedMessage :: "DataChannel \<Rightarrow> nat \<Rightarrow> bool \<Rightarrow> DataChannel \<times> event list" where
  "confirmExpectedMessage st type success =
     (case expectedMessagesByType st type of
        None \<Rightarrow> (st, [])
      | Some expectedMsg \<Rightarrow>
          (st\<lparr>timers := clearTimeout (msg_key expectedMsg)
                           (clearTimeout (chunk_key expectedMsg) (timers st)),
              expectedMessagesByType :=
                delete_types (em_types expectedMsg) (expectedMessagesByType st)\<rparr>,
           if \<not> success then [TimeoutCallback (em_timeoutCallback expectedMsg)] else []))"

text \<open>
  \<^verbatim>\<open>expectMessage\<close> (DataChannel.js, lines 65-80). The first argument is one type or an
  array of types; an omitted timeout takes its default.
\<close>

datatype types_arg = OneType nat | TypeArray "nat list"

definition expectMessage ::
  "DataChannel \<Rightarrow> types_arg \<Rightarrow> nat \<Rightarrow> nat option \<Rightarrow> nat option \<Rightarrow> DataChannel" where
  "expectMessage st types_arg timeoutCallback msgTimeout_arg chunkTimeout_arg =
     (let msgTimeout = (case msgTimeout_arg of None \<Rightarrow> MESSAGE_TIMEOUT | Some t \<Rightarrow> t);
          chunkTimeout = (case chunkTimeout_arg of None \<Rightarrow> CHUNK_TIMEOUT | Some t \<Rightarrow> t);
          types = (case types_arg of OneType t \<Rightarrow> [t] | TypeArray ts \<Rightarrow> ts)
      in if length types = 0 then st
         else
           (let expectedMsg = ExpectedMessage_new types timeoutCallback msgTimeout chunkTimeout
            in st\<lparr>expectedMessagesByType :=
                     set_types types expectedMsg (expectedMessagesByType st),
                   timers :=
                     resetTimeout (msg_key expectedMsg) expectedMsg msgTimeout
                       (resetTimeout (chunk_key expectedMsg) expectedMsg chunkTimeout
                          (timers st))\<rparr>))"

text \<open>\<^verbatim>\<open>_onTimeout\<close> (DataChannel.js, lines 199-213).\<close>

definition onTimeout :: "DataChannel \<Rightarrow> ExpectedMessage option \<Rightarrow> DataChannel \<times> event list" where
  "onTimeout st expectedMsg_arg =
     (case expectedMsg_arg of
        Some expectedMsg \<Rightarrow>
          (st\<lparr>timers := clearTimeout (msg_key expectedMsg)
                           (clearTimeout (chunk_key expectedMsg) (timers st)),
              expectedMessagesByType :=
                delete_types (em_types expectedMsg) (expectedMessagesByType st),
              buffer := None\<rparr>,
           [TimeoutCallback (em_timeoutCallback expectedMsg), LogE TimeoutReceiving])
      | None \<Rightarrow> (st\<lparr>buffer := None\<rparr>, [LogE TimeoutReceiving]))"

text \<open>
  A timer that expires calls the function it was armed with, \<^verbatim>\<open>_onTimeout\<close> bound to its
  expectation. A key without a timer never fires.
\<close>

definition timer_expires :: "DataChannel \<Rightarrow> string \<Rightarrow> (DataChannel \<times> event list) option" where
  "timer_expires st key =
     (case timers st key of
        None \<Rightarrow> None
      | Some (expectedMsg, waitTime) \<Rightarrow> Some (onTimeout st (Some expectedMsg)))"

section \<open>DataChannel: closing and receiving\<close>

text \<open>\<^verbatim>\<open>_onClose\<close> (DataChannel.js, lines 92-96).\<close>

definition onClose :: "DataChannel \<Rightarrow> DataChannel \<times> event list" where
  "onClose st = (st\<lparr>timers := clearAll (timers st)\<rparr>, [FireClose])"

text \<open>
  Modelled from the spec: \<^verbatim>\<open>close()\<close> is abstract in DataChannel and its implementations
  are not among the sources. By the spec it triggers \<^verbatim>\<open>_onClose\<close> and leaves the channel
  closed, and only the first call has an effect.
\<close>

definition close :: "DataChannel \<Rightarrow> DataChannel \<times> event list" where
  "close st =
     (if readyState st = CLOSED then (st, [])
      else (let (st', evs) = onClose st in (st'\<lparr>readyState := CLOSED\<rparr>, evs)))"

text \<open>\<^verbatim>\<open>_error\<close> (DataChannel.js, lines 102-106).\<close>

definition error :: "DataChannel \<Rightarrow> message_text \<Rightarrow> DataChannel \<times> event list" where
  "error st msg = (let (st', evs) = close st in (st', FireError msg # LogE msg # evs))"

text \<open>
  \<^verbatim>\<open>_onMessage\<close> (DataChannel.js, lines 112-193), from line 152 on: the chunk goes to the
  reassembly buffer.
\<close>

definition onMessage_write :: "nat \<Rightarrow> DataChannel \<Rightarrow> nat \<Rightarrow> byte list \<Rightarrow> DataChannel \<times> event list" where
  "onMessage_write now st tag chunk =
     (case buffer st of
        None \<Rightarrow> (st, [LogE (NotNextTag (receivingTag st + 1) tag)])
      | Some buf \<Rightarrow>
          if int tag \<noteq> receivingTag st then error st (WrongMessageTag tag (receivingTag st))
          else
            (let remainingBytes = sb_byteLength buf - writePos buf
             in if length chunk > remainingBytes then error st ChunkLargerThanRemaining
                else
                  (let buf' = sb_write buf chunk;
                       remainingBytes' = remainingBytes - length chunk;
                       st' = st\<lparr>buffer := Some buf', lastChunkReceivedAt := now\<rparr>;
                       expectedMsg = expectedMessagesByType st' (msgType st')
                   in if remainingBytes' = 0
                      then (st'\<lparr>buffer := None\<rparr>, [FireMessage (sb_buffer buf')])
                      else
                        ((case expectedMsg of
                            Some e \<Rightarrow>
                              st'\<lparr>timers := resetTimeout (chunk_key e) e (em_chunkTimeout e) (timers st')\<rparr>
                          | None \<Rightarrow> st'),
                         [FireChunk buf']))))"

text \<open>
  \<^verbatim>\<open>_onMessage\<close> as a whole. \<^verbatim>\<open>Message.peekLength\<close> and \<^verbatim>\<open>Message.peekType\<close> are not among
  the sources and are parameters: each returns a number or throws (\<open>Inl\<close>, with the
  text of the exception), and what is thrown inside the \<^verbatim>\<open>try\<close> block reaches \<^verbatim>\<open>_error\<close>.
  \<open>now\<close> is what \<^verbatim>\<open>Date.now()\<close> returns.
\<close>

definition onMessage ::
  "(byte list \<Rightarrow> string + nat) \<Rightarrow> (byte list \<Rightarrow> string + nat) \<Rightarrow> nat \<Rightarrow>
   DataChannel \<Rightarrow> byte list \<Rightarrow> DataChannel \<times> event list" where
  "onMessage peekLength peekType now st msg =
     (if readyState st \<noteq> OPEN then (st, [])
      else if length msg = 0 then (st, [])
      else if length msg > CHUNK_SIZE_MAX then error st ChunkTooLarge
      else
        (let tag = unat (hd msg);
             chunk = tl msg
         in if buffer st = None \<and> int tag = js_rem (receivingTag st + 1) (int UINT8_MAX)
            then
              (case peekLength chunk of
                 Inl e \<Rightarrow> error st (ParseError e)
               | Inr messageSize \<Rightarrow>
                   if messageSize > MESSAGE_SIZE_MAX then error st (ExcessiveMessageSize messageSize)
                   else
                     (let st1 = st\<lparr>buffer := Some (SerialBuffer_new messageSize),
                                    receivingTag := int tag\<rparr>
                      in case peekType chunk of
                           Inl e \<Rightarrow> error st1 (ParseError e)
                         | Inr type \<Rightarrow> onMessage_write now (st1\<lparr>msgType := type\<rparr>) tag chunk))
            else onMessage_write now st tag chunk))"

text \<open>The transport delivers chunks one after the other.\<close>

fun feed ::
  "(byte list \<Rightarrow> string + nat) \<Rightarrow> (byte list \<Rightarrow> string + nat) \<Rightarrow> nat \<Rightarrow>
   DataChannel \<Rightarrow> byte list list \<Rightarrow> DataChannel \<times> event list" where
  "feed peekLength peekType now st [] = (st, [])"
| "feed peekLength peekType now st (c # cs) =
     (let (st1, evs1) = onMessage peekLength peekType now st c;
          (st2, evs2) = feed peekLength peekType now st1 cs
      in (st2, evs1 @ evs2))"


section \<open>The frame header\<close>

text \<open>
  Modelled from the spec: class Message is not among the sources. By the spec a frame
  starts with a magic constant (4 bytes), the type (1 byte), the total length (4 bytes,
  big-endian) and a checksum (4 bytes); \<^verbatim>\<open>peekLength\<close> and \<^verbatim>\<open>peekType\<close> read the header and
  fail when the magic does not match. The magic constant is a parameter.
\<close>

definition be_uint :: "byte list \<Rightarrow> nat" where
  "be_uint bs = foldl (\<lambda>acc b. acc * 256 + unat b) 0 bs"

definition Message_peekLength :: "byte list \<Rightarrow> byte list \<Rightarrow> string + nat" where
  "Message_peekLength magic buf =
     (if length buf < 9 \<or> take 4 buf \<noteq> magic then Inl ''Malformed''
      else Inr (be_uint (take 4 (drop 5 buf))))"

definition Message_peekType :: "byte list \<Rightarrow> byte list \<Rightarrow> string + nat" where
  "Message_peekType magic buf =
     (if length buf < 5 \<or> take 4 buf \<noteq> magic then Inl ''Malformed''
      else Inr (unat (buf ! 4)))"

section \<open>PeerChannel: receiving\<close>

text \<open>
  A parsed message; \<^verbatim>\<open>msg.type\<close> is all that \<^verbatim>\<open>_onMessage\<close> reads of it.
\<close>

record Message =
  m_type :: nat
  m_payload :: "byte list"

text \<open>
  \<^verbatim>\<open>CloseType\<close> and \<^verbatim>\<open>RejectMessage.Code\<close> are not among the sources; the two members that
  \<^verbatim>\<open>_onMessage\<close> names are constructors here.
\<close>

datatype CloseType = FAILED_TO_PARSE_MESSAGE_TYPE | OtherCloseType nat

datatype RejectCode = REJECT_MALFORMED | OtherRejectCode nat

text \<open>
  What \<^verbatim>\<open>PeerChannel._onMessage\<close> asks of its connection and of its listeners, in order:
  the calls of \<^verbatim>\<open>this._conn.confirmExpectedMessage\<close>, of \<^verbatim>\<open>this.close\<close> (which calls
  \<^verbatim>\<open>this._conn.close\<close>), of \<^verbatim>\<open>this.reject\<close> (which sends a RejectMessage through
  \<^verbatim>\<open>this._conn.send\<close>), of \<^verbatim>\<open>this.fire\<close> and of the logger.
\<close>

datatype pc_effect =
    LogD "nat option" string
  | ConfirmExpectedMessage "nat option" bool
  | Close CloseType string
  | Reject nat RejectCode string
  | Fire nat Message
  | FireMessageLog Message int nat
  | LogW nat string

text \<open>
  \<^verbatim>\<open>PeerChannel._onMessage\<close> (part_001, lines 19-61). \<^verbatim>\<open>MessageFactory.peekType\<close> and
  \<^verbatim>\<open>MessageFactory.parse\<close> are not among the sources and are parameters: each returns
  a value or throws (\<open>Inl\<close>, with the text of the exception); \<^verbatim>\<open>parse\<close> may return a
  falsy value (\<open>None\<close>). \<open>REJECT\<close> is \<^verbatim>\<open>Message.Type.REJECT\<close>. \<open>subscribers\<close> is what the
  listeners of a typed event do with a message: return, or throw; \<open>logSubscribers\<close> is
  the same for the listeners of 'message-log'. \<open>start\<close> and \<open>finish\<close> are the two
  readings of \<^verbatim>\<open>Date.now()\<close>; their difference \<^verbatim>\<open>Date.now() - start\<close> is an integer, negative
  when the clock was set back between the readings.
\<close>

definition PeerChannel_onMessage ::
  "nat \<Rightarrow> (byte list \<Rightarrow> string + nat) \<Rightarrow> (byte list \<Rightarrow> string + Message option) \<Rightarrow>
   (nat \<Rightarrow> Message \<Rightarrow> string option) \<Rightarrow> (Message \<Rightarrow> string option) \<Rightarrow>
   nat \<Rightarrow> nat \<Rightarrow> byte list \<Rightarrow> pc_effect list" where
  "PeerChannel_onMessage REJECT peekType parse subscribers logSubscribers start finish rawMsg =
     (let catch = (\<lambda>type e.
            [LogD type e, ConfirmExpectedMessage type False] @
            (if type = None \<or> type = Some REJECT
             then [Close FAILED_TO_PARSE_MESSAGE_TYPE ''Failed to parse message type'']
             else [Reject (the type) REJECT_MALFORMED e]))
      in case peekType rawMsg of
           Inl e \<Rightarrow> catch None e
         | Inr type \<Rightarrow>
             (case parse rawMsg of
                Inl e \<Rightarrow> catch (Some type) e
              | Inr None \<Rightarrow> []
              | Inr (Some msg) \<Rightarrow>
                  [ConfirmExpectedMessage (Some type) True, Fire (m_type msg) msg] @
                  (case subscribers (m_type msg) msg of
                     Some e \<Rightarrow> [LogW (m_type msg) e]
                   | None \<Rightarrow>
                       FireMessageLog msg (int finish - int start) (length rawMsg) #
                       (case logSubscribers msg of
                          Some e \<Rightarrow> [LogW (m_type msg) e]
                        | None \<Rightarrow> []))))"

definition is_Close :: "pc_effect \<Rightarrow> bool" where
  "is_Close x = (case x of Close t r \<Rightarrow> True | _ \<Rightarrow> False)"

definition is_Reject :: "pc_effect \<Rightarrow> bool" where
  "is_Reject x = (case x of Reject t c r \<Rightarrow> True | _ \<Rightarrow> False)"

definition is_FireMessageLog :: "pc_effect \<Rightarrow> bool" where
  "is_FireMessageLog x = (case x of FireMessageLog m d n \<Rightarrow> True | _ \<Rightarrow> False)"

definition is_FireMessage :: "event \<Rightarrow> bool" where
  "is_FireMessage x = (case x of FireMessage m \<Rightarrow> True | _ \<Rightarrow> False)"

definition is_FireError :: "event \<Rightarrow> bool" where
  "is_FireError x = (case x of FireError m \<Rightarrow> True | _ \<Rightarrow> False)"

definition is_TimeoutCallback :: "event \<Rightarrow> bool" where
  "is_TimeoutCallback x = (case x of TimeoutCallback c \<Rightarrow> True | _ \<Rightarrow> False)"


definition is_Fire :: "pc_effect \<Rightarrow> bool" where
  "is_Fire x = (case x of Fire t m \<Rightarrow> True | FireMessageLog m d n \<Rightarrow> True | _ \<Rightarrow> False)"

text \<open>
  The parse of a frame fails with exception \<open>e\<close>, leaving \<open>type\<close> in the variable
  \<^verbatim>\<open>type\<close>: either \<^verbatim>\<open>peekType\<close> throws and the variable is still null, or \<^verbatim>\<open>peekType\<close>
  returns and \<^verbatim>\<open>parse\<close> throws.
\<close>

definition parse_fails ::
  "(byte list \<Rightarrow> string + nat) \<Rightarrow> (byte list \<Rightarrow> string + Message option) \<Rightarrow> byte list \<Rightarrow>
   nat option \<Rightarrow> string \<Rightarrow> bool" where
  "parse_fails peekType parse rawMsg type e =
     (case peekType rawMsg of
        Inl e' \<Rightarrow> type = None \<and> e = e'
      | Inr t \<Rightarrow> type = Some t \<and> parse rawMsg = Inl e)"

section \<open>Runs of a channel\<close>

text \<open>The tag of a chunk is its first byte.\<close>

definition tag_of :: "byte list \<Rightarrow> nat" where
  "tag_of chunk = unat (hd chunk)"

text \<open>
  Successive calls of \<^verbatim>\<open>send\<close> on one channel: the chunks handed to \<^verbatim>\<open>sendChunk\<close>, in
  order, each with the number of the call that emitted it (counted from \<open>i\<close>).
\<close>

fun send_all :: "DataChannel \<Rightarrow> nat \<Rightarrow> Uint8Array list \<Rightarrow> (nat \<times> byte list) list" where
  "send_all st i [] = []"
| "send_all st i (m # ms) =
     (let (st', sent, e) = send st m
      in map (Pair i) sent @ send_all st' (Suc i) ms)"

text \<open>
  Two chunks that follow each other in the stream: when they belong to different
  messages, the tag of the second is the tag of the first plus one, modulo 255.
\<close>

definition next_tag :: "nat \<times> byte list \<Rightarrow> nat \<times> byte list \<Rightarrow> bool" where
  "next_tag a b = (fst a = fst b \<or> tag_of (snd b) = (tag_of (snd a) + 1) mod 255)"

text \<open>
  The receiver is open and idle, \<open>tag\<close> being the last tag it accepted; or it is open
  and assembling a message of \<open>n\<close> bytes under \<open>tag\<close>, with \<open>w\<close> written so far.
\<close>

definition idle :: "DataChannel \<Rightarrow> int \<Rightarrow> bool" where
  "idle st tag = (readyState st = OPEN \<and> buffer st = None \<and> receivingTag st = tag)"

definition assembling :: "DataChannel \<Rightarrow> nat \<Rightarrow> byte list \<Rightarrow> nat \<Rightarrow> bool" where
  "assembling st n w tag =
     (readyState st = OPEN \<and> buffer st = Some \<lparr>sb_byteLength = n, sb_written = w\<rparr>
      \<and> receivingTag st = int tag)"

text \<open>
  The bytes that the first chunk of a message carries after its tag, as \<^verbatim>\<open>_sendChunked\<close>
  cuts them from \<^verbatim>\<open>msg.buffer\<close>.
\<close>

definition first_payload :: "Uint8Array \<Rightarrow> byte list" where
  "first_payload msg = take (min (byteLength msg) (CHUNK_SIZE_MAX - 1)) (u8_buffer msg)"

section \<open>Concrete inputs\<close>

text \<open>
  A codec for the examples: the type is the fifth byte of a frame, and a frame of fewer
  than six bytes does not parse.
\<close>

definition ex_peekType :: "byte list \<Rightarrow> string + nat" where
  "ex_peekType buf = (if length buf < 5 then Inl ''short'' else Inr (unat (buf ! 4)))"

definition ex_parse :: "byte list \<Rightarrow> string + Message option" where
  "ex_parse buf =
     (if length buf < 6 then Inl ''Malformed''
      else Inr (Some \<lparr>m_type = unat (buf ! 4), m_payload = drop 5 buf\<rparr>))"

text \<open>Listeners: the one for type 6 throws, the others return.\<close>

definition ex_subscribers :: "nat \<Rightarrow> Message \<Rightarrow> string option" where
  "ex_subscribers type msg = (if type = 6 then Some ''handler failed'' else None)"

definition ex_logSubscribers :: "Message \<Rightarrow> string option" where
  "ex_logSubscribers msg = None"

text \<open>A magic constant and a frame of 14 bytes, of type 6, whose header declares 14.\<close>

definition ex_magic :: "byte list" where
  "ex_magic = [66, 4, 32, 66]"

definition ex_frame :: "byte list" where
  "ex_frame = [66, 4, 32, 66, 6, 0, 0, 0, 14, 1, 2, 3, 4, 9]"


text \<open>
  Two first payloads of 13 bytes: the header of the first declares 10485761 bytes, the
  header of the second 10485760.
\<close>

definition ex_oversized :: "byte list" where
  "ex_oversized = [66, 4, 32, 66, 6, 0, 160, 0, 1, 0, 0, 0, 0]"

definition ex_maximal :: "byte list" where
  "ex_maximal = [66, 4, 32, 66, 6, 0, 160, 0, 0, 0, 0, 0, 0]"

text \<open>
  An open channel after \<^verbatim>\<open>expectMessage([1, 2], callback 7)\<close>, and the expectation the
  call registers.
\<close>

definition ex_expected :: ExpectedMessage where
  "ex_expected = ExpectedMessage_new [1, 2] 7 MESSAGE_TIMEOUT CHUNK_TIMEOUT"

definition ex_channel :: DataChannel where
  "ex_channel = expectMessage (DataChannel_new OPEN) (TypeArray [1, 2]) 7 None None"

section \<open>Lemmas on sending and receiving\<close>

declare sendChunked_loop.simps [simp del]

lemma Uint8Array_new_ok:
  "off + len \<le> length buf \<Longrightarrow> Uint8Array_new buf off len = Inr (take len (drop off buf))"
  by (simp add: Uint8Array_new_def)

lemma loop_zero: "sendChunked_loop msg tag 0 = ([], None)"
  by (simp add: sendChunked_loop.simps)

lemma loop_full:
  assumes "wf_view msg" "remaining \<le> byteLength msg" "CHUNK_SIZE_MAX \<le> remaining + 1"
  shows "sendChunked_loop msg tag remaining =
     ((of_nat tag # take (CHUNK_SIZE_MAX - 1) (drop (byteLength msg - remaining) (u8_buffer msg)))
        # fst (sendChunked_loop msg tag (remaining - (CHUNK_SIZE_MAX - 1))),
      snd (sendChunked_loop msg tag (remaining - (CHUNK_SIZE_MAX - 1))))"
proof -
  have pos: "0 < remaining" using assms(3) by (simp add: CHUNK_SIZE_MAX_def)
  have "byteLength msg - remaining + (CHUNK_SIZE_MAX - 1) \<le> length (u8_buffer msg)"
    using assms by (simp add: wf_view_def)
  then have new: "Uint8Array_new (u8_buffer msg) (byteLength msg - remaining) (CHUNK_SIZE_MAX - 1)
      = Inr (take (CHUNK_SIZE_MAX - 1) (drop (byteLength msg - remaining) (u8_buffer msg)))"
    by (rule Uint8Array_new_ok)
  have len: "length (take (CHUNK_SIZE_MAX - 1) (drop (byteLength msg - remaining) (u8_buffer msg)))
      = CHUNK_SIZE_MAX - 1"
    using assms by (simp add: wf_view_def)
  show ?thesis
    apply (subst sendChunked_loop.simps)
    apply (simp only: pos assms(3) if_True Let_def new sum.case len)
    apply (simp add: case_prod_beta)
    done
qed

lemma loop_last:
  assumes "wf_view msg" "remaining \<le> byteLength msg" "0 < remaining" "remaining + 1 < CHUNK_SIZE_MAX"
  shows "sendChunked_loop msg tag remaining =
     ([of_nat tag # take remaining (drop (byteLength msg - remaining) (u8_buffer msg))], None)"
proof -
  have "byteLength msg - remaining + remaining \<le> length (u8_buffer msg)"
    using assms by (simp add: wf_view_def)
  then have new: "Uint8Array_new (u8_buffer msg) (byteLength msg - remaining) remaining
      = Inr (take remaining (drop (byteLength msg - remaining) (u8_buffer msg)))"
    by (rule Uint8Array_new_ok)
  have nle: "\<not> CHUNK_SIZE_MAX \<le> remaining + 1" using assms(4) by simp
  have len: "length (take remaining (drop (byteLength msg - remaining) (u8_buffer msg))) = remaining"
    using assms by (simp add: wf_view_def)
  show ?thesis
    apply (subst sendChunked_loop.simps)
    apply (simp only: assms(3) nle if_True if_False Let_def new sum.case len)
    apply (simp add: loop_zero)
    done
qed

lemma loop_count:
  "wf_view msg \<Longrightarrow> remaining \<le> byteLength msg \<Longrightarrow>
   length (fst (sendChunked_loop msg tag remaining)) = (remaining + (CHUNK_SIZE_MAX - 2)) div (CHUNK_SIZE_MAX - 1)
   \<and> snd (sendChunked_loop msg tag remaining) = None"
proof (induction remaining rule: less_induct)
  case (less r)
  show ?case
  proof (cases "r = 0")
    case True
    then show ?thesis by (simp add: loop_zero CHUNK_SIZE_MAX_def)
  next
    case False
    show ?thesis
    proof (cases "CHUNK_SIZE_MAX \<le> r + 1")
      case True
      have "r - (CHUNK_SIZE_MAX - 1) < r" using False by (simp add: CHUNK_SIZE_MAX_def)
      moreover have "r - (CHUNK_SIZE_MAX - 1) \<le> byteLength msg" using less.prems by simp
      ultimately have ih: "length (fst (sendChunked_loop msg tag (r - (CHUNK_SIZE_MAX - 1))))
          = (r - (CHUNK_SIZE_MAX - 1) + (CHUNK_SIZE_MAX - 2)) div (CHUNK_SIZE_MAX - 1)
         \<and> snd (sendChunked_loop msg tag (r - (CHUNK_SIZE_MAX - 1))) = None"
        using less.IH less.prems(1) by blast
      have ar: "Suc ((r - (CHUNK_SIZE_MAX - 1) + (CHUNK_SIZE_MAX - 2)) div (CHUNK_SIZE_MAX - 1))
          = (r + (CHUNK_SIZE_MAX - 2)) div (CHUNK_SIZE_MAX - 1)"
        using True unfolding CHUNK_SIZE_MAX_def by simp
      show ?thesis
        using ih ar by (simp add: loop_full [OF less.prems True])
    next
      case c: False
      have ar: "(r + (CHUNK_SIZE_MAX - 2)) div (CHUNK_SIZE_MAX - 1) = 1"
        using c False unfolding CHUNK_SIZE_MAX_def by simp
      from c False show ?thesis
        using ar by (simp add: loop_last [OF less.prems])
    qed
  qed
qed

lemma js_rem_nonneg: "0 \<le> a \<Longrightarrow> 0 < b \<Longrightarrow> js_rem a b = a mod b"
  by (cases "a = 0") (simp_all add: js_rem_def)

lemma unat_tag: "tag < 256 \<Longrightarrow> unat (of_nat tag :: byte) = tag"
  by (simp add: unat_of_nat)

lemma close_open:
  "readyState st = OPEN \<Longrightarrow> close st = (st\<lparr>timers := Map.empty, readyState := CLOSED\<rparr>, [FireClose])"
  by (simp add: close_def onClose_def clearAll_def)

lemma error_open:
  "readyState st = OPEN \<Longrightarrow>
   error st msg = (st\<lparr>timers := Map.empty, readyState := CLOSED\<rparr>, [FireError msg, LogE msg, FireClose])"
  by (simp add: error_def close_open)

lemma write_more:
  assumes "assembling st n w tag" "length w + length chunk < n"
  shows "\<exists>st'. onMessage_write now st tag chunk = (st', [FireChunk \<lparr>sb_byteLength = n, sb_written = w @ chunk\<rparr>])
          \<and> assembling st' n (w @ chunk) tag"
  using assms
  by (auto simp: assembling_def onMessage_write_def writePos_def sb_write_def Let_def
      split: option.splits)

lemma write_last:
  assumes "assembling st n w tag" "length w + length chunk = n" 
  shows "\<exists>st'. onMessage_write now st tag chunk = (st', [FireMessage (w @ chunk)])
          \<and> idle st' (int tag)"
  using assms
  by (auto simp: assembling_def idle_def onMessage_write_def writePos_def sb_write_def sb_buffer_def Let_def
      split: option.splits)

lemma onMessage_continue:
  assumes "assembling st n w tag" "tag < 256" "Suc (length chunk) \<le> CHUNK_SIZE_MAX"
  shows "onMessage peekLength peekType now st (of_nat tag # chunk) = onMessage_write now st tag chunk"
  using assms by (simp add: onMessage_def assembling_def unat_tag Let_def)

lemma onMessage_first:
  assumes "readyState st = OPEN" "buffer st = None"
    and "int tag = js_rem (receivingTag st + 1) (int UINT8_MAX)" "tag < 256"
    and "Suc (length chunk) \<le> CHUNK_SIZE_MAX"
    and "peekLength chunk = Inr n" "n \<le> MESSAGE_SIZE_MAX" "peekType chunk = Inr type"
  shows "onMessage peekLength peekType now st (of_nat tag # chunk)
     = onMessage_write now (st\<lparr>buffer := Some (SerialBuffer_new n), receivingTag := int tag, msgType := type\<rparr>) tag chunk"
  using assms by (simp add: onMessage_def unat_tag Let_def)

lemma is_event_simps:
  "is_FireMessage (FireMessage m)" "\<not> is_FireMessage (FireChunk b)"
  "\<not> is_FireMessage (FireError t)" "\<not> is_FireMessage FireClose"
  "\<not> is_FireMessage (LogE t)" "\<not> is_FireMessage (TimeoutCallback k)"
  "is_FireError (FireError t)" "\<not> is_FireError (FireChunk b)"
  "\<not> is_FireError (FireMessage m)" "\<not> is_FireError FireClose"
  "\<not> is_FireError (LogE t)" "\<not> is_FireError (TimeoutCallback k)"
  "is_TimeoutCallback (TimeoutCallback k)" "\<not> is_TimeoutCallback (FireChunk b)"
  "\<not> is_TimeoutCallback (FireMessage m)" "\<not> is_TimeoutCallback FireClose"
  "\<not> is_TimeoutCallback (LogE t)" "\<not> is_TimeoutCallback (FireError t)"
  by (simp_all add: is_FireMessage_def is_FireError_def is_TimeoutCallback_def)

lemma feed_Cons:
  "feed pl pt now st (c # cs) =
     (fst (feed pl pt now (fst (onMessage pl pt now st c)) cs),
      snd (onMessage pl pt now st c) @ snd (feed pl pt now (fst (onMessage pl pt now st c)) cs))"
  by (simp add: case_prod_beta)

text \<open>The chunks of the loop, from \<open>remaining\<close> on, complete the message being assembled.\<close>

lemma feed_loop:
  assumes "wf_view msg" "tag < 256"
  shows "remaining \<le> byteLength msg \<Longrightarrow> 0 < remaining \<Longrightarrow>
     assembling st (byteLength msg) (take (byteLength msg - remaining) (u8_buffer msg)) tag \<Longrightarrow>
     idle (fst (feed pl pt now st (fst (sendChunked_loop msg tag remaining)))) (int tag)
     \<and> filter is_FireMessage (snd (feed pl pt now st (fst (sendChunked_loop msg tag remaining))))
         = [FireMessage (take (byteLength msg) (u8_buffer msg))]
     \<and> filter is_FireError (snd (feed pl pt now st (fst (sendChunked_loop msg tag remaining)))) = []"
proof (induction remaining arbitrary: st rule: less_induct)
  case (less r)
  let ?n = "byteLength msg"
  define w where "w = take (?n - r) (u8_buffer msg)"
  have lw: "length w = ?n - r"
    using assms(1) less.prems(1) by (simp add: wf_view_def w_def)
  have asm: "assembling st ?n w tag"
    using less.prems(3) by (simp add: w_def)
  show ?case
  proof (cases "CHUNK_SIZE_MAX \<le> r + 1")
    case True
    define c where "c = take (CHUNK_SIZE_MAX - 1) (drop (?n - r) (u8_buffer msg))"
    define r' where "r' = r - (CHUNK_SIZE_MAX - 1)"
    have lc: "length c = CHUNK_SIZE_MAX - 1"
      using assms(1) less.prems(1) True by (simp add: wf_view_def c_def)
    have csm: "0 < CHUNK_SIZE_MAX - 1" by (simp add: CHUNK_SIZE_MAX_def)
    have wc: "w @ c = take (?n - r') (u8_buffer msg)"
    proof -
      have "?n - r' = (?n - r) + (CHUNK_SIZE_MAX - 1)"
        using less.prems(1) True by (simp add: r'_def)
      then show ?thesis by (simp add: take_add w_def c_def)
    qed
    have loop: "fst (sendChunked_loop msg tag r) = (of_nat tag # c) # fst (sendChunked_loop msg tag r')"
      by (simp add: loop_full [OF assms(1) less.prems(1) True] c_def r'_def)
    have cont: "onMessage pl pt now st (of_nat tag # c) = onMessage_write now st tag c"
      using lc csm by (intro onMessage_continue [OF asm assms(2)]) simp
    show ?thesis
    proof (cases "r' = 0")
      case True
      then have "length w + length c = ?n"
        unfolding lw lc r'_def using less.prems(1) \<open>CHUNK_SIZE_MAX \<le> r + 1\<close> by arith
      from write_last [OF asm this, of now]
      obtain st' where st': "onMessage_write now st tag c = (st', [FireMessage (w @ c)])"
        "idle st' (int tag)" by blast
      have full: "w @ c = take ?n (u8_buffer msg)"
        using wc True by simp
      show ?thesis
        using st' True
        by (simp add: loop feed_Cons cont loop_zero full is_event_simps del: feed.simps(2))
    next
      case False
      then have "length w + length c < ?n"
        unfolding lw lc r'_def using less.prems(1) \<open>CHUNK_SIZE_MAX \<le> r + 1\<close> by arith
      from write_more [OF asm this, of now]
      obtain st' where st': "onMessage_write now st tag c
          = (st', [FireChunk \<lparr>sb_byteLength = ?n, sb_written = w @ c\<rparr>])"
        "assembling st' ?n (w @ c) tag" by blast
      have "r' < r" using less.prems(2) csm by (simp add: r'_def)
      moreover have "r' \<le> ?n" using less.prems(1) by (simp add: r'_def)
      moreover have "0 < r'" using False by simp
      moreover have "assembling st' ?n (take (?n - r') (u8_buffer msg)) tag"
        using st'(2) wc by simp
      ultimately have ih: "idle (fst (feed pl pt now st' (fst (sendChunked_loop msg tag r')))) (int tag)
         \<and> filter is_FireMessage (snd (feed pl pt now st' (fst (sendChunked_loop msg tag r'))))
             = [FireMessage (take ?n (u8_buffer msg))]
         \<and> filter is_FireError (snd (feed pl pt now st' (fst (sendChunked_loop msg tag r')))) = []"
        by (rule less.IH)
      show ?thesis
        using st'(1) ih
        by (simp add: loop feed_Cons cont is_event_simps del: feed.simps(2))
    qed
  next
    case False
    define c where "c = take r (drop (?n - r) (u8_buffer msg))"
    have lt: "r + 1 < CHUNK_SIZE_MAX" using False by simp
    have lc: "length c = r"
      using assms(1) less.prems(1) by (simp add: wf_view_def c_def)
    have loop: "fst (sendChunked_loop msg tag r) = [of_nat tag # c]"
      by (simp add: loop_last [OF assms(1) less.prems(1,2) lt] c_def)
    have cont: "onMessage pl pt now st (of_nat tag # c) = onMessage_write now st tag c"
      using lc lt by (intro onMessage_continue [OF asm assms(2)]) simp
    have "length w + length c = ?n"
      unfolding lw lc using less.prems(1) by arith
    from write_last [OF asm this, of now]
    obtain st' where st': "onMessage_write now st tag c = (st', [FireMessage (w @ c)])"
      "idle st' (int tag)" by blast
    have full: "w @ c = take ?n (u8_buffer msg)"
    proof -
      have "?n = (?n - r) + r" using less.prems(1) by simp
      then have "take ?n (u8_buffer msg) = take ((?n - r) + r) (u8_buffer msg)" by simp
      then show ?thesis by (simp only: take_add w_def c_def)
    qed
    show ?thesis
      using st' by (simp add: loop feed_Cons cont full is_event_simps del: feed.simps(2))
  qed
qed

lemma assembling_first:
  "readyState st = OPEN \<Longrightarrow>
   assembling (st\<lparr>buffer := Some (SerialBuffer_new n), receivingTag := int tag, msgType := type\<rparr>) n [] tag"
  by (simp add: assembling_def SerialBuffer_new_def)

lemma receive_sent:
  assumes wf: "wf_view msg" and pos: "0 < byteLength msg" and le: "byteLength msg \<le> MESSAGE_SIZE_MAX"
    and tag: "tag < 256" and idle: "idle st rt"
    and nxt: "int tag = js_rem (rt + 1) (int UINT8_MAX)"
    and pl: "peekLength (first_payload msg) = Inr (byteLength msg)"
    and pt: "peekType (first_payload msg) = Inr type"
  shows "idle (fst (feed peekLength peekType now st (fst (sendChunked msg tag)))) (int tag)
     \<and> filter is_FireMessage (snd (feed peekLength peekType now st (fst (sendChunked msg tag))))
         = [FireMessage (take (byteLength msg) (u8_buffer msg))]
     \<and> filter is_FireError (snd (feed peekLength peekType now st (fst (sendChunked msg tag)))) = []"
proof -
  let ?n = "byteLength msg"
  define st1 where "st1 = st\<lparr>buffer := Some (SerialBuffer_new ?n), receivingTag := int tag, msgType := type\<rparr>"
  have opn: "readyState st = OPEN" and nul: "buffer st = None" and rt: "receivingTag st = rt"
    using idle by (simp_all add: idle_def)
  have asm1: "assembling st1 ?n [] tag"
    unfolding st1_def using opn by (rule assembling_first)
  have nxt': "int tag = js_rem (receivingTag st + 1) (int UINT8_MAX)"
    using nxt rt by simp
  show ?thesis
  proof (cases "CHUNK_SIZE_MAX \<le> ?n + 1")
    case True
    define c where "c = take (CHUNK_SIZE_MAX - 1) (u8_buffer msg)"
    define r' where "r' = ?n - (CHUNK_SIZE_MAX - 1)"
    have mn: "min ?n (CHUNK_SIZE_MAX - 1) = CHUNK_SIZE_MAX - 1"
      using True by arith
    have fp: "first_payload msg = c"
      unfolding first_payload_def mn c_def by (rule refl)
    have lc: "length c = CHUNK_SIZE_MAX - 1"
      using wf True by (simp add: wf_view_def c_def)
    have csm: "0 < CHUNK_SIZE_MAX - 1" by (simp add: CHUNK_SIZE_MAX_def)
    have lcs: "Suc (length c) \<le> CHUNK_SIZE_MAX" using lc csm by simp
    have loop: "fst (sendChunked msg tag) = (of_nat tag # c) # fst (sendChunked_loop msg tag r')"
      using loop_full [OF wf order_refl True, of tag] by (simp add: sendChunked_def c_def r'_def)
    have first: "onMessage peekLength peekType now st (of_nat tag # c) = onMessage_write now st1 tag c"
      unfolding st1_def
      using opn nul nxt' tag lcs pl le pt unfolding fp by (rule onMessage_first)
    show ?thesis
    proof (cases "r' = 0")
      case True
      then have "length [] + length c = ?n"
        unfolding lc r'_def list.size using \<open>CHUNK_SIZE_MAX \<le> ?n + 1\<close> by arith
      from write_last [OF asm1 this, of now]
      obtain st' where st': "onMessage_write now st1 tag c = (st', [FireMessage ([] @ c)])"
        "idle st' (int tag)" by blast
      have "CHUNK_SIZE_MAX - 1 = ?n"
        using True \<open>CHUNK_SIZE_MAX \<le> ?n + 1\<close> unfolding r'_def by arith
      then have full: "take ?n (u8_buffer msg) = c"
        unfolding c_def by simp
      show ?thesis
        using st' True full
        by (simp add: loop feed_Cons first loop_zero is_event_simps del: feed.simps(2))
    next
      case False
      then have "length [] + length c < ?n"
        unfolding lc r'_def list.size using \<open>CHUNK_SIZE_MAX \<le> ?n + 1\<close> by arith
      from write_more [OF asm1 this, of now]
      obtain st' where st': "onMessage_write now st1 tag c
          = (st', [FireChunk \<lparr>sb_byteLength = ?n, sb_written = [] @ c\<rparr>])"
        "assembling st' ?n ([] @ c) tag" by blast
      have "?n - r' = CHUNK_SIZE_MAX - 1"
        unfolding r'_def using \<open>CHUNK_SIZE_MAX \<le> ?n + 1\<close> by arith
      then have "assembling st' ?n (take (?n - r') (u8_buffer msg)) tag"
        using st'(2) by (simp add: c_def)
      moreover have "r' \<le> ?n" by (simp add: r'_def)
      moreover have "0 < r'" using False by simp
      ultimately have rest: "idle (fst (feed peekLength peekType now st' (fst (sendChunked_loop msg tag r')))) (int tag)
         \<and> filter is_FireMessage (snd (feed peekLength peekType now st' (fst (sendChunked_loop msg tag r'))))
             = [FireMessage (take ?n (u8_buffer msg))]
         \<and> filter is_FireError (snd (feed peekLength peekType now st' (fst (sendChunked_loop msg tag r')))) = []"
        using feed_loop [OF wf tag] by blast
      show ?thesis
        using st'(1) rest
        by (simp add: loop feed_Cons first is_event_simps del: feed.simps(2))
    qed
  next
    case False
    define c where "c = take ?n (u8_buffer msg)"
    have lt: "?n + 1 < CHUNK_SIZE_MAX" using False by simp
    have mn: "min ?n (CHUNK_SIZE_MAX - 1) = ?n"
      using lt by arith
    have fp: "first_payload msg = c"
      unfolding first_payload_def mn c_def by (rule refl)
    have lc: "length c = ?n"
      using wf by (simp add: wf_view_def c_def)
    have lcs: "Suc (length c) \<le> CHUNK_SIZE_MAX" using lc lt by simp
    have loop: "fst (sendChunked msg tag) = [of_nat tag # c]"
      using loop_last [OF wf order_refl pos lt, of tag] by (simp add: sendChunked_def c_def)
    have first: "onMessage peekLength peekType now st (of_nat tag # c) = onMessage_write now st1 tag c"
      unfolding st1_def
      using opn nul nxt' tag lcs pl le pt unfolding fp by (rule onMessage_first)
    have "length [] + length c = ?n"
      using lc by simp
    from write_last [OF asm1 this, of now]
    obtain st' where st': "onMessage_write now st1 tag c = (st', [FireMessage ([] @ c)])"
      "idle st' (int tag)" by blast
    have full: "take ?n (u8_buffer msg) = c"
      by (simp add: c_def)
    show ?thesis
      using st' by (simp add: loop feed_Cons first is_event_simps full del: feed.simps(2))
  qed
qed

lemma send_ok:
  assumes "wf_view msg" "byteLength msg \<le> MESSAGE_SIZE_MAX"
  shows "send st msg = (st\<lparr>sendingTag := (sendingTag st + 1) mod 255\<rparr>, fst (sendChunked msg (sendingTag st)), None)"
proof -
  have "snd (sendChunked msg (sendingTag st)) = None"
    using loop_count [OF assms(1) order_refl] by (simp add: sendChunked_def)
  moreover have "nat (js_rem (int (sendingTag st) + 1) (int UINT8_MAX)) = (sendingTag st + 1) mod 255"
    by (simp add: js_rem_nonneg UINT8_MAX_def nat_mod_distrib nat_add_distrib)
  ultimately show ?thesis
    using assms(2) by (simp add: send_def case_prod_beta Let_def prod_eq_iff)
qed

lemma new_idle: "idle (DataChannel_new OPEN) (- 1)"
  by (simp add: idle_def DataChannel_new_def)

lemma ex_frame_peek:
  "Message_peekLength ex_magic (first_payload (from_bytes ex_frame)) = Inr (byteLength (from_bytes ex_frame))"
  "Message_peekType ex_magic (first_payload (from_bytes ex_frame)) = Inr 6"
  by (simp_all add: Message_peekLength_def Message_peekType_def ex_magic_def ex_frame_def
      first_payload_def from_bytes_def CHUNK_SIZE_MAX_def be_uint_def)

lemma delete_types_apply:
  "delete_types types m t = (if t \<in> set types then None else m t)"
  unfolding delete_types_def by (induction types arbitrary: m) auto

lemma set_types_apply:
  "set_types types e m t = (if t \<in> set types then Some e else m t)"
  unfolding set_types_def by (induction types arbitrary: m) auto

lemma ex_peekLength:
  "Message_peekLength ex_magic ex_oversized = Inr 10485761"
  "Message_peekLength ex_magic ex_maximal = Inr 10485760"
  "Message_peekType ex_magic ex_maximal = Inr 6"
  by (simp_all add: Message_peekLength_def Message_peekType_def ex_magic_def ex_oversized_def
      ex_maximal_def be_uint_def)

lemma onTimeout_idle:
  "readyState st = OPEN \<Longrightarrow> idle (fst (onTimeout st (Some e))) (receivingTag st)"
  by (simp add: onTimeout_def idle_def)

lemma ex_channel_fields:
  "expectedMessagesByType ex_channel 1 = Some ex_expected"
  "expectedMessagesByType ex_channel 2 = Some ex_expected"
  "timers ex_channel ''chunk-1:2'' = Some (ex_expected, 5000)"
  "timers ex_channel ''msg-1:2'' = Some (ex_expected, 3200000)"
  "readyState ex_channel = OPEN"
  "buffer ex_channel = None"
  "receivingTag ex_channel = - 1"
  by (simp_all add: ex_channel_def ex_expected_def expectMessage_def DataChannel_new_def
      ExpectedMessage_new_def set_types_def resetTimeout_def clearTimeout_def chunk_key_def msg_key_def
      string_of_nat.simps MESSAGE_TIMEOUT_def CHUNK_TIMEOUT_def MESSAGE_SIZE_MAX_def CHUNK_SIZE_MAX_def Let_def)

lemma ex_expected_fields:
  "em_types ex_expected = [1, 2]" "em_timeoutCallback ex_expected = 7"
  "chunk_key ex_expected = ''chunk-1:2''" "msg_key ex_expected = ''msg-1:2''"
  by (simp_all add: ex_expected_def ExpectedMessage_new_def chunk_key_def msg_key_def string_of_nat.simps)

lemma loop_tags:
  assumes "wf_view msg"
  shows "remaining \<le> byteLength msg \<Longrightarrow> c \<in> set (fst (sendChunked_loop msg tag remaining)) \<Longrightarrow>
     c \<noteq> [] \<and> hd c = of_nat tag"
proof (induction remaining rule: less_induct)
  case (less r)
  show ?case
  proof (cases "r = 0")
    case True
    with less.prems show ?thesis by (simp add: loop_zero)
  next
    case False
    show ?thesis
    proof (cases "CHUNK_SIZE_MAX \<le> r + 1")
      case True
      define r' where "r' = r - (CHUNK_SIZE_MAX - 1)"
      have "r' < r" using False by (simp add: CHUNK_SIZE_MAX_def r'_def)
      moreover have "r' \<le> byteLength msg" using less.prems(1) by (simp add: r'_def)
      ultimately have ih: "c \<in> set (fst (sendChunked_loop msg tag r')) \<Longrightarrow> c \<noteq> [] \<and> hd c = of_nat tag"
        using less.IH by blast
      have "fst (sendChunked_loop msg tag r)
          = (of_nat tag # take (CHUNK_SIZE_MAX - 1) (drop (byteLength msg - r) (u8_buffer msg)))
              # fst (sendChunked_loop msg tag r')"
        unfolding r'_def by (simp add: loop_full [OF assms less.prems(1) True])
      then show ?thesis
        using ih less.prems(2) by auto
    next
      case c: False
      then have "r + 1 < CHUNK_SIZE_MAX" by simp
      from loop_last [OF assms less.prems(1) _ this] False less.prems(2)
      show ?thesis by auto
    qed
  qed
qed

lemma loop_nonempty:
  assumes "wf_view msg" "remaining \<le> byteLength msg" "0 < remaining"
  shows "fst (sendChunked_loop msg tag remaining) \<noteq> []"
proof (cases "CHUNK_SIZE_MAX \<le> remaining + 1")
  case True
  then show ?thesis by (simp add: loop_full [OF assms(1,2) True])
next
  case False
  then have "remaining + 1 < CHUNK_SIZE_MAX" by simp
  from loop_last [OF assms this] show ?thesis by simp
qed

lemma sent_tags:
  assumes "wf_view msg" "tag < 256" "c \<in> set (fst (sendChunked msg tag))"
  shows "tag_of c = tag"
  using loop_tags [OF assms(1) order_refl, of c tag] assms(2,3)
  by (simp add: sendChunked_def tag_of_def unat_tag)

lemma send_all_Cons:
  assumes "wf_view m" "byteLength m \<le> MESSAGE_SIZE_MAX"
  shows "send_all st i (m # ms) =
     map (Pair i) (fst (sendChunked m (sendingTag st)))
       @ send_all (st\<lparr>sendingTag := (sendingTag st + 1) mod 255\<rparr>) (Suc i) ms"
  by (simp add: send_ok [OF assms])

lemma send_all_tags:
  "\<forall>m \<in> set ms. wf_view m \<and> byteLength m \<le> MESSAGE_SIZE_MAX \<Longrightarrow> sendingTag st < 255 \<Longrightarrow>
   (k, c) \<in> set (send_all st i ms) \<Longrightarrow>
   i \<le> k \<and> tag_of c = (sendingTag st + (k - i)) mod 255"
proof (induction ms arbitrary: st i)
  case Nil
  then show ?case by simp
next
  case (Cons m ms)
  let ?st' = "st\<lparr>sendingTag := (sendingTag st + 1) mod 255\<rparr>"
  have m: "wf_view m" "byteLength m \<le> MESSAGE_SIZE_MAX"
    using Cons.prems(1) by simp_all
  from Cons.prems(3) have "(k = i \<and> c \<in> set (fst (sendChunked m (sendingTag st))))
      \<or> (k, c) \<in> set (send_all ?st' (Suc i) ms)"
    unfolding send_all_Cons [OF m] by auto
  then show ?case
  proof
    assume a: "k = i \<and> c \<in> set (fst (sendChunked m (sendingTag st)))"
    then have "tag_of c = sendingTag st"
      using sent_tags [OF m(1), of "sendingTag st" c] Cons.prems(2) by simp
    with a Cons.prems(2) show ?thesis by simp
  next
    assume a: "(k, c) \<in> set (send_all ?st' (Suc i) ms)"
    have "\<forall>m \<in> set ms. wf_view m \<and> byteLength m \<le> MESSAGE_SIZE_MAX"
      using Cons.prems(1) by simp
    moreover have "sendingTag ?st' < 255" by simp
    ultimately have ih: "Suc i \<le> k \<and> tag_of c = (sendingTag ?st' + (k - Suc i)) mod 255"
      using a by (rule Cons.IH)
    then have "tag_of c = ((sendingTag st + 1) mod 255 + (k - Suc i)) mod 255" by simp
    also have "\<dots> = (sendingTag st + 1 + (k - Suc i)) mod 255"
      by (simp add: mod_add_left_eq)
    also have "sendingTag st + 1 + (k - Suc i) = sendingTag st + (k - i)"
      using ih by arith
    finally show ?thesis using ih by simp
  qed
qed

lemma successively_same_message: "successively next_tag (map (Pair i) cs)"
  by (induction cs rule: induct_list012) (simp_all add: next_tag_def)

lemma send_all_successively:
  "\<forall>m \<in> set ms. wf_view m \<and> 0 < byteLength m \<and> byteLength m \<le> MESSAGE_SIZE_MAX \<Longrightarrow>
   sendingTag st < 255 \<Longrightarrow> successively next_tag (send_all st i ms)"
proof (induction ms arbitrary: st i)
  case Nil
  then show ?case by simp
next
  case (Cons m ms)
  define st' where "st' = st\<lparr>sendingTag := (sendingTag st + 1) mod 255\<rparr>"
  define cs where "cs = fst (sendChunked m (sendingTag st))"
  define B where "B = send_all st' (Suc i) ms"
  have m: "wf_view m" "byteLength m \<le> MESSAGE_SIZE_MAX" "0 < byteLength m"
    using Cons.prems(1) by simp_all
  have rest: "\<forall>m \<in> set ms. wf_view m \<and> 0 < byteLength m \<and> byteLength m \<le> MESSAGE_SIZE_MAX"
    using Cons.prems(1) by simp
  have st': "sendingTag st' < 255" "sendingTag st' = (sendingTag st + 1) mod 255"
    by (simp_all add: st'_def)
  have B: "successively next_tag B"
    unfolding B_def using rest st'(1) by (rule Cons.IH)
  have cs: "cs \<noteq> []"
    using loop_nonempty [OF m(1) order_refl m(3)] by (simp add: sendChunked_def cs_def)
  then have "last cs \<in> set cs" by simp
  then have lastA: "tag_of (last cs) = sendingTag st"
    unfolding cs_def using sent_tags [OF m(1), of "sendingTag st"] Cons.prems(2) by simp
  have link: "B = [] \<or> next_tag (i, last cs) (hd B)"
  proof (cases ms)
    case Nil
    then show ?thesis by (simp add: B_def)
  next
    case (Cons m' ms')
    define cs' where "cs' = fst (sendChunked m' (sendingTag st'))"
    have m': "wf_view m'" "byteLength m' \<le> MESSAGE_SIZE_MAX" "0 < byteLength m'"
      using rest Cons by simp_all
    have cs': "cs' \<noteq> []"
      using loop_nonempty [OF m'(1) order_refl m'(3)] by (simp add: sendChunked_def cs'_def)
    have "B = map (Pair (Suc i)) cs' @ send_all (st'\<lparr>sendingTag := (sendingTag st' + 1) mod 255\<rparr>) (Suc (Suc i)) ms'"
      unfolding B_def Cons cs'_def by (rule send_all_Cons [OF m'(1,2)])
    then have hdB: "hd B = (Suc i, hd cs')"
      using cs' by (simp add: hd_map)
    have "hd cs' \<in> set cs'" using cs' by simp
    then have "tag_of (hd cs') = sendingTag st'"
      unfolding cs'_def using sent_tags [OF m'(1), of "sendingTag st'"] st'(1) by simp
    then show ?thesis
      using lastA by (simp add: hdB next_tag_def st'(2))
  qed
  have "send_all st i (m # ms) = map (Pair i) cs @ B"
    unfolding cs_def B_def st'_def by (rule send_all_Cons [OF m(1,2)])
  moreover have "last (map (Pair i) cs) = (i, last cs)"
    using cs by (simp add: last_map)
  ultimately show ?case
    using B link cs by (simp add: successively_append_iff successively_same_message)
qed

lemma send_small:
  assumes "wf_view m" "0 < byteLength m" "byteLength m + 1 < CHUNK_SIZE_MAX"
  shows "fst (sendChunked m tag) = [of_nat tag # take (byteLength m) (u8_buffer m)]"
  using loop_last [OF assms(1) order_refl assms(2,3), of tag] by (simp add: sendChunked_def)

lemma ex_views:
  "wf_view (from_bytes [1])" "wf_view (from_bytes [2])" "wf_view (from_bytes [])"
  "byteLength (from_bytes [1]) \<le> MESSAGE_SIZE_MAX" "byteLength (from_bytes [2]) \<le> MESSAGE_SIZE_MAX"
  "byteLength (from_bytes []) \<le> MESSAGE_SIZE_MAX"
  by (simp_all add: wf_view_def from_bytes_def MESSAGE_SIZE_MAX_def)

lemma ex_sent:
  "fst (sendChunked (from_bytes [1]) tag) = [[of_nat tag, 1]]"
  "fst (sendChunked (from_bytes [2]) tag) = [[of_nat tag, 2]]"
  "fst (sendChunked (from_bytes []) tag) = []"
proof -
  have a: "0 < byteLength (from_bytes [1])" "byteLength (from_bytes [1]) + 1 < CHUNK_SIZE_MAX"
    "0 < byteLength (from_bytes [2])" "byteLength (from_bytes [2]) + 1 < CHUNK_SIZE_MAX"
    by (simp_all add: from_bytes_def CHUNK_SIZE_MAX_def)
  show "fst (sendChunked (from_bytes [1]) tag) = [[of_nat tag, 1]]"
    unfolding send_small [OF ex_views(1) a(1,2)] by (simp add: from_bytes_def)
  show "fst (sendChunked (from_bytes [2]) tag) = [[of_nat tag, 2]]"
    unfolding send_small [OF ex_views(2) a(3,4)] by (simp add: from_bytes_def)
  show "fst (sendChunked (from_bytes []) tag) = []"
    by (simp add: sendChunked_def from_bytes_def loop_zero)
qed

lemma ex_run:
  "send_all (DataChannel_new OPEN) 0 [from_bytes [1], from_bytes [2]] = [(0, [0, 1]), (1, [1, 2])]"
  "send_all (DataChannel_new OPEN) 0 [from_bytes [1], from_bytes [], from_bytes [2]]
     = [(0, [0, 1]), (2, [2, 2])]"
  by (simp_all add: send_all_Cons ex_views ex_sent DataChannel_new_def del: send_all.simps(2))

section \<open>PeerChannel: frames that fail to parse\<close>

text \<open>
  Claim C1. When the parse of a received frame fails: if the peeked type is unknown
  (null) or is REJECT, PeerChannel closes the channel with FAILED_TO_PARSE_MESSAGE_TYPE
  and sends no REJECT; otherwise it sends exactly one
  REJECT(peekedType, REJECT_MALFORMED, err), does not close, and fires no event for the
  frame.
\<close>

theorem parse_failure_policy:
  assumes "parse_fails peekType parse rawMsg type e"
  shows "(if type = None \<or> type = Some REJECT
          then filter is_Close (PeerChannel_onMessage REJECT peekType parse subs logSubs start finish rawMsg)
                 = [Close FAILED_TO_PARSE_MESSAGE_TYPE ''Failed to parse message type'']
             \<and> filter is_Reject (PeerChannel_onMessage REJECT peekType parse subs logSubs start finish rawMsg) = []
          else filter is_Reject (PeerChannel_onMessage REJECT peekType parse subs logSubs start finish rawMsg)
                 = [Reject (the type) REJECT_MALFORMED e]
             \<and> filter is_Close (PeerChannel_onMessage REJECT peekType parse subs logSubs start finish rawMsg) = []
             \<and> filter is_Fire (PeerChannel_onMessage REJECT peekType parse subs logSubs start finish rawMsg) = [])"
  using assms
  by (auto simp: parse_fails_def PeerChannel_onMessage_def is_Close_def is_Reject_def is_Fire_def
      split: sum.splits)

theorem parse_failure_policy_witness:
  "parse_fails ex_peekType ex_parse [1, 2, 3, 4, 10] (Some 10) ''Malformed''
   \<and> filter is_Close (PeerChannel_onMessage 10 ex_peekType ex_parse ex_subscribers ex_logSubscribers 0 7 [1, 2, 3, 4, 10])
       = [Close FAILED_TO_PARSE_MESSAGE_TYPE ''Failed to parse message type'']
   \<and> filter is_Reject (PeerChannel_onMessage 10 ex_peekType ex_parse ex_subscribers ex_logSubscribers 0 7 [1, 2, 3, 4, 10]) = []"
proof -
  have h: "parse_fails ex_peekType ex_parse [1, 2, 3, 4, 10] (Some 10) ''Malformed''"
    by (simp add: parse_fails_def ex_peekType_def ex_parse_def)
  show ?thesis
    using h parse_failure_policy [where peekType = ex_peekType and parse = ex_parse
        and rawMsg = "[1, 2, 3, 4, 10]" and REJECT = 10 and subs = ex_subscribers
        and logSubs = ex_logSubscribers and start = 0 and finish = 7, OF h]
    by simp
qed

section \<open>PeerChannel: listeners that throw\<close>

text \<open>
  Claim C9, amended. For a frame that parses to a message, PeerChannel never closes the
  channel; when a listener of the typed event throws, the exception is logged and no
  'message-log' event is fired; when none throws, exactly one 'message-log' event is
  fired, carrying the message, the elapsed time (the difference of the two clock
  readings, as an integer) and the byte length of the frame.
\<close>

theorem handler_error_policy:
  assumes "peekType rawMsg = Inr type" and "parse rawMsg = Inr (Some msg)"
  shows "filter is_Close (PeerChannel_onMessage REJECT peekType parse subs logSubs start finish rawMsg) = []
     \<and> (case subs (m_type msg) msg of
          Some e \<Rightarrow>
            LogW (m_type msg) e \<in> set (PeerChannel_onMessage REJECT peekType parse subs logSubs start finish rawMsg)
            \<and> filter is_FireMessageLog (PeerChannel_onMessage REJECT peekType parse subs logSubs start finish rawMsg) = []
        | None \<Rightarrow>
            filter is_FireMessageLog (PeerChannel_onMessage REJECT peekType parse subs logSubs start finish rawMsg)
              = [FireMessageLog msg (int finish - int start) (length rawMsg)])"
  using assms
  by (auto simp: PeerChannel_onMessage_def is_Close_def is_FireMessageLog_def split: option.splits)

theorem handler_error_policy_witness:
  "filter is_Close (PeerChannel_onMessage 10 ex_peekType ex_parse ex_subscribers ex_logSubscribers 3 7 [1, 2, 3, 4, 8, 9]) = []
   \<and> filter is_FireMessageLog (PeerChannel_onMessage 10 ex_peekType ex_parse ex_subscribers ex_logSubscribers 3 7 [1, 2, 3, 4, 8, 9])
       = [FireMessageLog \<lparr>m_type = 8, m_payload = [9]\<rparr> 4 6]
   \<and> filter is_FireMessageLog (PeerChannel_onMessage 10 ex_peekType ex_parse ex_subscribers ex_logSubscribers 7 3 [1, 2, 3, 4, 8, 9])
       = [FireMessageLog \<lparr>m_type = 8, m_payload = [9]\<rparr> (- 4) 6]"
proof -
  have a: "ex_peekType [1, 2, 3, 4, 8, 9] = Inr 8"
    by (simp add: ex_peekType_def)
  have b: "ex_parse [1, 2, 3, 4, 8, 9] = Inr (Some \<lparr>m_type = 8, m_payload = [9]\<rparr>)"
    by (simp add: ex_parse_def)
  show ?thesis
    using handler_error_policy [where peekType = ex_peekType and parse = ex_parse
        and rawMsg = "[1, 2, 3, 4, 8, 9]" and REJECT = 10 and subs = ex_subscribers
        and logSubs = ex_logSubscribers and start = 3 and finish = 7, OF a b]
      handler_error_policy [where peekType = ex_peekType and parse = ex_parse
        and rawMsg = "[1, 2, 3, 4, 8, 9]" and REJECT = 10 and subs = ex_subscribers
        and logSubs = ex_logSubscribers and start = 7 and finish = 3, OF a b]
    by (simp add: ex_subscribers_def)
qed

text \<open>
  Claim C9 as stated fails: the frame below parses to a message of type 6, the listener
  of that type throws, and the effects of \<^verbatim>\<open>_onMessage\<close> end with the log entry; no
  'message-log' event is fired for the message.
\<close>

theorem message_log_counterexample:
  "ex_peekType [1, 2, 3, 4, 6, 9] = Inr 6
   \<and> ex_parse [1, 2, 3, 4, 6, 9] = Inr (Some \<lparr>m_type = 6, m_payload = [9]\<rparr>)
   \<and> PeerChannel_onMessage 10 ex_peekType ex_parse ex_subscribers ex_logSubscribers 3 7 [1, 2, 3, 4, 6, 9]
       = [ConfirmExpectedMessage (Some 6) True, Fire 6 \<lparr>m_type = 6, m_payload = [9]\<rparr>, LogW 6 ''handler failed'']
   \<and> filter is_FireMessageLog
        (PeerChannel_onMessage 10 ex_peekType ex_parse ex_subscribers ex_logSubscribers 3 7 [1, 2, 3, 4, 6, 9]) = []"
  by (simp add: PeerChannel_onMessage_def ex_peekType_def ex_parse_def ex_subscribers_def is_FireMessageLog_def)


section \<open>DataChannel: chunk framing\<close>

text \<open>
  Claim C2, amended. Let a message of at least one and at most MESSAGE_SIZE_MAX bytes
  lie at offset 0 of its buffer, let its frame header declare its own length (so that
  \<^verbatim>\<open>peekLength\<close> on the first payload returns the length of the message, and \<^verbatim>\<open>peekType\<close>
  returns), and let it be sent by a channel whose sending tag is 0. Then \<^verbatim>\<open>send\<close> does
  not throw, and feeding its chunks to a fresh open channel fires exactly one 'message'
  event, with the bytes of the message, and no 'error' event.
\<close>

theorem chunk_framing:
  assumes "wf_view msg" and "byteOffset msg = 0"
    and "0 < byteLength msg" and "byteLength msg \<le> MESSAGE_SIZE_MAX"
    and "sendingTag sender = 0"
    and "peekLength (first_payload msg) = Inr (byteLength msg)"
    and "peekType (first_payload msg) = Inr type"
  shows "snd (snd (send sender msg)) = None
     \<and> filter is_FireMessage
          (snd (feed peekLength peekType now (DataChannel_new OPEN) (fst (snd (send sender msg)))))
         = [FireMessage (bytes_of msg)]
     \<and> filter is_FireError
          (snd (feed peekLength peekType now (DataChannel_new OPEN) (fst (snd (send sender msg))))) = []"
proof -
  have nxt: "int 0 = js_rem (- 1 + 1) (int UINT8_MAX)"
    by (simp add: js_rem_def)
  have bytes: "take (byteLength msg) (u8_buffer msg) = bytes_of msg"
    using assms(2) by (simp add: bytes_of_def)
  show ?thesis
    using receive_sent [where peekLength = peekLength and peekType = peekType and tag = 0
        and now = now, OF assms(1,3,4) _ new_idle nxt assms(6,7)]
    by (simp add: send_ok [OF assms(1,4)] assms(5) bytes)
qed

text \<open>The frame of 14 bytes, sent by a fresh channel, arrives.\<close>

theorem chunk_framing_witness:
  "wf_view (from_bytes ex_frame) \<and> byteLength (from_bytes ex_frame) = 14
   \<and> filter is_FireMessage
        (snd (feed (Message_peekLength ex_magic) (Message_peekType ex_magic) 0 (DataChannel_new OPEN)
           (fst (snd (send (DataChannel_new CONNECTING) (from_bytes ex_frame))))))
       = [FireMessage ex_frame]
   \<and> filter is_FireError
        (snd (feed (Message_peekLength ex_magic) (Message_peekType ex_magic) 0 (DataChannel_new OPEN)
           (fst (snd (send (DataChannel_new CONNECTING) (from_bytes ex_frame)))))) = []"
proof -
  have a: "wf_view (from_bytes ex_frame)" and b: "byteOffset (from_bytes ex_frame) = 0"
    and c: "0 < byteLength (from_bytes ex_frame)"
    and d: "byteLength (from_bytes ex_frame) \<le> MESSAGE_SIZE_MAX"
    and e: "sendingTag (DataChannel_new CONNECTING) = 0"
    by (simp_all add: wf_view_def from_bytes_def ex_frame_def MESSAGE_SIZE_MAX_def DataChannel_new_def)
  have f: "bytes_of (from_bytes ex_frame) = ex_frame"
    by (simp add: bytes_of_def from_bytes_def)
  have g: "byteLength (from_bytes ex_frame) = 14"
    by (simp add: from_bytes_def ex_frame_def)
  show ?thesis
    using chunk_framing [where peekLength = "Message_peekLength ex_magic"
        and peekType = "Message_peekType ex_magic" and now = 0, OF a b c d e ex_frame_peek] a g
    by (simp add: f)
qed

text \<open>
  Claim C2 as stated fails. For the message of no bytes \<^verbatim>\<open>send\<close> emits no chunk, and the
  receiver fires no event at all. For the message of the single byte 7, \<^verbatim>\<open>send\<close> emits
  the chunk [0, 7]; the header cannot be read from its payload, and the receiver fires
  'error' and closes. The frame of 14 bytes, sent by a channel whose sending tag is 3,
  goes out as one chunk under tag 3, which a fresh receiver logs and drops.
\<close>

theorem chunk_framing_counterexample:
  "byteLength (from_bytes []) \<le> MESSAGE_SIZE_MAX
   \<and> send (DataChannel_new OPEN) (from_bytes [])
       = ((DataChannel_new OPEN)\<lparr>sendingTag := 1\<rparr>, [], None)
   \<and> feed (Message_peekLength ex_magic) (Message_peekType ex_magic) 0 (DataChannel_new OPEN)
        (fst (snd (send (DataChannel_new OPEN) (from_bytes []))))
       = (DataChannel_new OPEN, [])
   \<and> byteLength (from_bytes [7]) \<le> MESSAGE_SIZE_MAX
   \<and> fst (snd (send (DataChannel_new OPEN) (from_bytes [7]))) = [[0, 7]]
   \<and> snd (feed (Message_peekLength ex_magic) (Message_peekType ex_magic) 0 (DataChannel_new OPEN)
        (fst (snd (send (DataChannel_new OPEN) (from_bytes [7])))))
       = [FireError (ParseError ''Malformed''), LogE (ParseError ''Malformed''), FireClose]
   \<and> byteLength (from_bytes ex_frame) \<le> MESSAGE_SIZE_MAX
   \<and> fst (snd (send ((DataChannel_new OPEN)\<lparr>sendingTag := 3\<rparr>) (from_bytes ex_frame)))
       = [3 # ex_frame]
   \<and> feed (Message_peekLength ex_magic) (Message_peekType ex_magic) 0 (DataChannel_new OPEN)
        (fst (snd (send ((DataChannel_new OPEN)\<lparr>sendingTag := 3\<rparr>) (from_bytes ex_frame))))
       = (DataChannel_new OPEN, [LogE (NotNextTag 0 3)])"
proof -
  have s0: "send (DataChannel_new OPEN) (from_bytes [])
       = ((DataChannel_new OPEN)\<lparr>sendingTag := 1\<rparr>, [], None)"
    by (simp add: send_def sendChunked_def from_bytes_def loop_zero MESSAGE_SIZE_MAX_def
        DataChannel_new_def js_rem_def UINT8_MAX_def)
  have w: "wf_view (from_bytes [7])" "byteLength (from_bytes [7]) \<le> byteLength (from_bytes [7])"
     "0 < byteLength (from_bytes [7])" "byteLength (from_bytes [7]) + 1 < CHUNK_SIZE_MAX"
    by (simp_all add: wf_view_def from_bytes_def CHUNK_SIZE_MAX_def)
  have s1: "fst (snd (send (DataChannel_new OPEN) (from_bytes [7]))) = [[0, 7]]"
    using loop_last [OF w, of 0]
    by (simp add: send_def sendChunked_def MESSAGE_SIZE_MAX_def case_prod_beta DataChannel_new_def)
       (simp add: from_bytes_def)
  have r1: "onMessage (Message_peekLength ex_magic) (Message_peekType ex_magic) 0 (DataChannel_new OPEN) [0, 7]
       = ((DataChannel_new OPEN)\<lparr>timers := Map.empty, readyState := CLOSED\<rparr>,
          [FireError (ParseError ''Malformed''), LogE (ParseError ''Malformed''), FireClose])"
    by (simp add: onMessage_def DataChannel_new_def CHUNK_SIZE_MAX_def js_rem_def UINT8_MAX_def
        Message_peekLength_def error_open)
  have v: "wf_view (from_bytes ex_frame)" "0 < byteLength (from_bytes ex_frame)"
     "byteLength (from_bytes ex_frame) + 1 < CHUNK_SIZE_MAX"
     "byteLength (from_bytes ex_frame) \<le> MESSAGE_SIZE_MAX"
    by (simp_all add: wf_view_def from_bytes_def ex_frame_def CHUNK_SIZE_MAX_def MESSAGE_SIZE_MAX_def)
  have "fst (sendChunked (from_bytes ex_frame) 3) = [3 # ex_frame]"
    unfolding send_small [OF v(1,2,3)] by (simp add: from_bytes_def)
  then have s2: "fst (snd (send ((DataChannel_new OPEN)\<lparr>sendingTag := 3\<rparr>) (from_bytes ex_frame)))
       = [3 # ex_frame]"
    by (simp add: send_ok [OF v(1,4)])
  have r2: "onMessage (Message_peekLength ex_magic) (Message_peekType ex_magic) 0 (DataChannel_new OPEN)
        (3 # ex_frame) = (DataChannel_new OPEN, [LogE (NotNextTag 0 3)])"
    by (simp add: onMessage_def onMessage_write_def DataChannel_new_def CHUNK_SIZE_MAX_def
        js_rem_def UINT8_MAX_def ex_frame_def)
  show ?thesis
    by (simp add: s0 s1 r1 s2 r2 v(4)) (simp add: from_bytes_def MESSAGE_SIZE_MAX_def)
qed

section \<open>DataChannel: the bound on the declared length\<close>

text \<open>
  Claim C3. Let the first chunk of a new message arrive: the channel is open, the
  chunk is not empty and not larger than CHUNK_SIZE_MAX, no message is being assembled
  and the tag is the next one. If the length declared in its header exceeds
  MESSAGE_SIZE_MAX, the channel fires 'error' and closes, and no buffer is allocated. If
  the declared length is MESSAGE_SIZE_MAX, a buffer of that size is allocated, and when
  the type can be peeked as well the chunk is accepted: no 'error', the channel stays
  open.
\<close>

theorem declared_length_bound:
  assumes "readyState st = OPEN" and "msg \<noteq> []" and "length msg \<le> CHUNK_SIZE_MAX"
    and "buffer st = None"
    and "int (tag_of msg) = js_rem (receivingTag st + 1) (int UINT8_MAX)"
    and "peekLength (tl msg) = Inr n"
  shows "(MESSAGE_SIZE_MAX < n \<longrightarrow>
            snd (onMessage peekLength peekType now st msg)
              = [FireError (ExcessiveMessageSize n), LogE (ExcessiveMessageSize n), FireClose]
            \<and> readyState (fst (onMessage peekLength peekType now st msg)) = CLOSED
            \<and> buffer (fst (onMessage peekLength peekType now st msg)) = None)
       \<and> (n = MESSAGE_SIZE_MAX \<longrightarrow>
            (\<exists>b. buffer (fst (onMessage peekLength peekType now st msg)) = Some b
                 \<and> sb_byteLength b = MESSAGE_SIZE_MAX)
            \<and> (\<forall>type. peekType (tl msg) = Inr type \<longrightarrow>
                 readyState (fst (onMessage peekLength peekType now st msg)) = OPEN
                 \<and> filter is_FireError (snd (onMessage peekLength peekType now st msg)) = []))"
proof (intro conjI impI allI)
  assume big: "MESSAGE_SIZE_MAX < n"
  have "onMessage peekLength peekType now st msg = error st (ExcessiveMessageSize n)"
    using assms big by (simp add: onMessage_def tag_of_def Let_def)
  then have *: "onMessage peekLength peekType now st msg
      = (st\<lparr>timers := Map.empty, readyState := CLOSED\<rparr>,
         [FireError (ExcessiveMessageSize n), LogE (ExcessiveMessageSize n), FireClose])"
    by (simp add: error_open [OF assms(1)])
  show "snd (onMessage peekLength peekType now st msg)
      = [FireError (ExcessiveMessageSize n), LogE (ExcessiveMessageSize n), FireClose]"
    "readyState (fst (onMessage peekLength peekType now st msg)) = CLOSED"
    "buffer (fst (onMessage peekLength peekType now st msg)) = None"
    using assms(4) by (simp_all add: *)
next
  assume eq: "n = MESSAGE_SIZE_MAX"
  define st1 where "st1 = st\<lparr>buffer := Some (SerialBuffer_new n), receivingTag := int (tag_of msg)\<rparr>"
  have short: "length (tl msg) < n"
    using assms(2,3) eq by (simp add: CHUNK_SIZE_MAX_def MESSAGE_SIZE_MAX_def)
  show "\<exists>b. buffer (fst (onMessage peekLength peekType now st msg)) = Some b
          \<and> sb_byteLength b = MESSAGE_SIZE_MAX"
  proof (cases "peekType (tl msg)")
    case (Inl e)
    then have "onMessage peekLength peekType now st msg = error st1 (ParseError e)"
      using assms eq by (simp add: onMessage_def tag_of_def Let_def st1_def)
    moreover have "readyState st1 = OPEN" using assms(1) by (simp add: st1_def)
    ultimately show ?thesis
      by (simp add: error_open st1_def SerialBuffer_new_def eq)
  next
    case (Inr type)
    then have "onMessage peekLength peekType now st msg
        = onMessage_write now (st1\<lparr>msgType := type\<rparr>) (tag_of msg) (tl msg)"
      using assms eq by (simp add: onMessage_def tag_of_def Let_def st1_def)
    moreover have "assembling (st1\<lparr>msgType := type\<rparr>) n [] (tag_of msg)"
      using assms(1) by (simp add: assembling_def st1_def SerialBuffer_new_def)
    ultimately show ?thesis
      using write_more [of "st1\<lparr>msgType := type\<rparr>" n "[]" "tag_of msg" "tl msg" now] short eq
      by (auto simp: assembling_def)
  qed
  fix type assume pt: "peekType (tl msg) = Inr type"
  then have "onMessage peekLength peekType now st msg
      = onMessage_write now (st1\<lparr>msgType := type\<rparr>) (tag_of msg) (tl msg)"
    using assms eq by (simp add: onMessage_def tag_of_def Let_def st1_def)
  moreover have "assembling (st1\<lparr>msgType := type\<rparr>) n [] (tag_of msg)"
    using assms(1) by (simp add: assembling_def st1_def SerialBuffer_new_def)
  ultimately show "readyState (fst (onMessage peekLength peekType now st msg)) = OPEN"
    "filter is_FireError (snd (onMessage peekLength peekType now st msg)) = []"
    using write_more [of "st1\<lparr>msgType := type\<rparr>" n "[]" "tag_of msg" "tl msg" now] short
    by (auto simp: assembling_def is_event_simps)
qed

text \<open>
  A fresh open channel receives a first chunk that declares 10485761 bytes, and one that
  declares 10485760 bytes.
\<close>

theorem declared_length_bound_witness:
  "snd (onMessage (Message_peekLength ex_magic) (Message_peekType ex_magic) 0 (DataChannel_new OPEN) (0 # ex_oversized))
     = [FireError (ExcessiveMessageSize 10485761), LogE (ExcessiveMessageSize 10485761), FireClose]
   \<and> buffer (fst (onMessage (Message_peekLength ex_magic) (Message_peekType ex_magic) 0 (DataChannel_new OPEN) (0 # ex_oversized))) = None
   \<and> (\<exists>b. buffer (fst (onMessage (Message_peekLength ex_magic) (Message_peekType ex_magic) 0 (DataChannel_new OPEN) (0 # ex_maximal))) = Some b
         \<and> sb_byteLength b = MESSAGE_SIZE_MAX)
   \<and> filter is_FireError (snd (onMessage (Message_peekLength ex_magic) (Message_peekType ex_magic) 0 (DataChannel_new OPEN) (0 # ex_maximal))) = []"
proof -
  have a: "readyState (DataChannel_new OPEN) = OPEN" "buffer (DataChannel_new OPEN) = None"
    by (simp_all add: DataChannel_new_def)
  have b: "0 # ex_oversized \<noteq> []" "0 # ex_maximal \<noteq> []" by simp_all
  have c: "length (0 # ex_oversized) \<le> CHUNK_SIZE_MAX" "length (0 # ex_maximal) \<le> CHUNK_SIZE_MAX"
    by (simp_all add: ex_oversized_def ex_maximal_def CHUNK_SIZE_MAX_def)
  have d: "int (tag_of (0 # ex_oversized)) = js_rem (receivingTag (DataChannel_new OPEN) + 1) (int UINT8_MAX)"
    "int (tag_of (0 # ex_maximal)) = js_rem (receivingTag (DataChannel_new OPEN) + 1) (int UINT8_MAX)"
    by (simp_all add: tag_of_def DataChannel_new_def js_rem_def)
  have e: "Message_peekLength ex_magic (tl (0 # ex_oversized)) = Inr 10485761"
    "Message_peekLength ex_magic (tl (0 # ex_maximal)) = Inr 10485760"
    by (simp_all add: ex_peekLength)
  show ?thesis
    using declared_length_bound [where peekLength = "Message_peekLength ex_magic"
        and peekType = "Message_peekType ex_magic" and now = 0, OF a(1) b(1) c(1) a(2) d(1) e(1)]
      declared_length_bound [where peekLength = "Message_peekLength ex_magic"
        and peekType = "Message_peekType ex_magic" and now = 0, OF a(1) b(2) c(2) a(2) d(2) e(2)]
    by (simp add: MESSAGE_SIZE_MAX_def ex_peekLength)
qed

section \<open>DataChannel: a chunk with an unexpected tag while idle\<close>

text \<open>
  Claim C4, amended. Let a non-empty chunk arrive while the channel is open and no
  message is being assembled, with a tag that differs from (receivingTag + 1) mod 255.
  If the chunk is larger than CHUNK_SIZE_MAX the channel fires 'error' and closes;
  otherwise the chunk is logged and dropped: no event is fired and the state of the
  channel, its ready state included, is unchanged.
\<close>

theorem next_tag_mismatch:
  assumes "readyState st = OPEN" and "msg \<noteq> []" and "buffer st = None"
    and "int (tag_of msg) \<noteq> js_rem (receivingTag st + 1) (int UINT8_MAX)"
  shows "onMessage peekLength peekType now st msg =
     (if length msg > CHUNK_SIZE_MAX
      then (st\<lparr>timers := Map.empty, readyState := CLOSED\<rparr>,
            [FireError ChunkTooLarge, LogE ChunkTooLarge, FireClose])
      else (st, [LogE (NotNextTag (receivingTag st + 1) (tag_of msg))]))"
  using assms
  by (simp add: onMessage_def onMessage_write_def tag_of_def Let_def error_open)

text \<open>A fresh open channel drops a frame that arrives under tag 5.\<close>

theorem next_tag_mismatch_witness:
  "onMessage (Message_peekLength ex_magic) (Message_peekType ex_magic) 0 (DataChannel_new OPEN) (5 # ex_frame)
     = (DataChannel_new OPEN, [LogE (NotNextTag 0 5)])"
proof -
  have a: "readyState (DataChannel_new OPEN) = OPEN" "buffer (DataChannel_new OPEN) = None"
    by (simp_all add: DataChannel_new_def)
  have b: "5 # ex_frame \<noteq> []" by simp
  have d: "int (tag_of (5 # ex_frame)) \<noteq> js_rem (receivingTag (DataChannel_new OPEN) + 1) (int UINT8_MAX)"
    by (simp add: tag_of_def DataChannel_new_def js_rem_def)
  have r: "receivingTag (DataChannel_new OPEN) + 1 = 0" by (simp add: DataChannel_new_def)
  show ?thesis
    using next_tag_mismatch [where peekLength = "Message_peekLength ex_magic"
        and peekType = "Message_peekType ex_magic" and now = 0, OF a(1) b a(2) d]
    by (simp add: r tag_of_def ex_frame_def CHUNK_SIZE_MAX_def)
qed

text \<open>
  Claim C4 as stated fails: a fresh open channel, whose next tag is 0, receives the
  chunk [5, 1]. The tag 5 differs from (receivingTag + 1) mod 256, yet no 'error' is
  fired and the channel is still open afterwards.
\<close>

theorem next_tag_mismatch_counterexample:
  "readyState (DataChannel_new OPEN) = OPEN \<and> buffer (DataChannel_new OPEN) = None
   \<and> int (tag_of [5, 1]) \<noteq> (receivingTag (DataChannel_new OPEN) + 1) mod 256
   \<and> onMessage (Message_peekLength ex_magic) (Message_peekType ex_magic) 0 (DataChannel_new OPEN) [5, 1]
       = (DataChannel_new OPEN, [LogE (NotNextTag 0 5)])
   \<and> filter is_FireError
        (snd (onMessage (Message_peekLength ex_magic) (Message_peekType ex_magic) 0 (DataChannel_new OPEN) [5, 1])) = []
   \<and> readyState
        (fst (onMessage (Message_peekLength ex_magic) (Message_peekType ex_magic) 0 (DataChannel_new OPEN) [5, 1])) = OPEN"
proof -
  have "onMessage (Message_peekLength ex_magic) (Message_peekType ex_magic) 0 (DataChannel_new OPEN) [5, 1]
       = (DataChannel_new OPEN, [LogE (NotNextTag 0 5)])"
    by (simp add: onMessage_def onMessage_write_def DataChannel_new_def CHUNK_SIZE_MAX_def
        js_rem_def UINT8_MAX_def)
  then show ?thesis
    by (simp add: is_event_simps) (simp add: DataChannel_new_def tag_of_def)
qed

section \<open>DataChannel: the tags of the chunks sent\<close>

text \<open>
  Claim C5, amended. Every chunk emitted by the k-th call of \<^verbatim>\<open>send\<close> since construction
  (counting from 0) carries the tag k mod 255; so the first tag is 0. When no
  zero-length message is sent, two chunks that follow each other in the stream and
  belong to different messages carry tags t and (t + 1) mod 255. A call of \<^verbatim>\<open>send\<close> at
  sending tag 254 leaves the sending tag at 0.
\<close>

theorem tag_sequence:
  assumes "\<forall>m \<in> set ms. wf_view m \<and> byteLength m \<le> MESSAGE_SIZE_MAX"
  shows "(\<forall>(k, c) \<in> set (send_all (DataChannel_new rs) 0 ms). tag_of c = k mod 255)
     \<and> ((\<forall>m \<in> set ms. 0 < byteLength m) \<longrightarrow>
          successively next_tag (send_all (DataChannel_new rs) 0 ms))
     \<and> (\<forall>m \<in> set ms. \<forall>st. sendingTag st = 254 \<longrightarrow> sendingTag (fst (send st m)) = 0)"
proof (intro conjI)
  have z: "sendingTag (DataChannel_new rs) < 255" "sendingTag (DataChannel_new rs) = 0"
    by (simp_all add: DataChannel_new_def)
  show "\<forall>(k, c) \<in> set (send_all (DataChannel_new rs) 0 ms). tag_of c = k mod 255"
    using send_all_tags [OF assms z(1), of _ _ 0] by (auto simp: z(2))
  show "(\<forall>m \<in> set ms. 0 < byteLength m) \<longrightarrow> successively next_tag (send_all (DataChannel_new rs) 0 ms)"
    using send_all_successively [of ms "DataChannel_new rs" 0] assms z(1) by blast
  show "\<forall>m \<in> set ms. \<forall>st. sendingTag st = 254 \<longrightarrow> sendingTag (fst (send st m)) = 0"
    using assms by (simp add: send_ok)
qed

text \<open>Two messages of one byte, sent by a fresh channel.\<close>

theorem tag_sequence_witness:
  "send_all (DataChannel_new OPEN) 0 [from_bytes [1], from_bytes [2]] = [(0, [0, 1]), (1, [1, 2])]
   \<and> tag_of [0, 1] = 0 \<and> tag_of [1, 2] = 1
   \<and> successively next_tag [(0, [0, 1]), (1, [1, 2])]
   \<and> sendingTag (fst (send ((DataChannel_new OPEN)\<lparr>sendingTag := 254\<rparr>) (from_bytes [1]))) = 0"
proof -
  have w: "\<forall>m \<in> set [from_bytes [1], from_bytes [2]]. wf_view m \<and> byteLength m \<le> MESSAGE_SIZE_MAX"
    by (simp add: wf_view_def from_bytes_def MESSAGE_SIZE_MAX_def)
  have p: "\<forall>m \<in> set [from_bytes [1], from_bytes [2]]. 0 < byteLength m"
    by (simp add: from_bytes_def)
  have s: "sendingTag ((DataChannel_new OPEN)\<lparr>sendingTag := 254\<rparr>) = 254" by simp
  show ?thesis
    using tag_sequence [OF w, of OPEN] p s unfolding ex_run
    by (simp del: successively.simps)
qed

text \<open>
  Claim C5 as stated fails: a fresh channel sends a message of one byte, a message of
  no bytes and another message of one byte. The two chunks emitted follow each other,
  belong to different messages, and carry the tags 0 and 2.
\<close>

theorem tag_sequence_counterexample:
  "byteLength (from_bytes [1]) \<le> MESSAGE_SIZE_MAX \<and> byteLength (from_bytes []) \<le> MESSAGE_SIZE_MAX
   \<and> byteLength (from_bytes [2]) \<le> MESSAGE_SIZE_MAX
   \<and> send_all (DataChannel_new OPEN) 0 [from_bytes [1], from_bytes [], from_bytes [2]]
       = [(0, [0, 1]), (2, [2, 2])]
   \<and> tag_of [0, 1] = 0 \<and> tag_of [2, 2] = 2
   \<and> \<not> next_tag (0, [0, 1]) (2, [2, 2])"
  using ex_run(2) ex_views(4,5,6) by (simp add: next_tag_def tag_of_def)

section \<open>DataChannel: timeouts\<close>

text \<open>
  Claim C6. When a timer armed for an expectation expires, \<^verbatim>\<open>_onTimeout\<close> runs for that
  expectation: afterwards no type of the expectation has an entry in the map, both of
  its timers are gone, its timeout callback has been called exactly once, the reassembly
  buffer is empty and the ready state is what it was (no 'close' is fired). If the
  channel is open, a fresh message that arrives under the next tag afterwards is
  received: one 'message' event with its bytes, no 'error'.
\<close>

theorem timeout_policy:
  assumes "timers st key = Some (e, waitTime)"
  shows "timer_expires st key = Some (onTimeout st (Some e))
     \<and> (\<forall>t \<in> set (em_types e). expectedMessagesByType (fst (onTimeout st (Some e))) t = None)
     \<and> timers (fst (onTimeout st (Some e))) (chunk_key e) = None
     \<and> timers (fst (onTimeout st (Some e))) (msg_key e) = None
     \<and> filter is_TimeoutCallback (snd (onTimeout st (Some e))) = [TimeoutCallback (em_timeoutCallback e)]
     \<and> buffer (fst (onTimeout st (Some e))) = None
     \<and> readyState (fst (onTimeout st (Some e))) = readyState st
     \<and> FireClose \<notin> set (snd (onTimeout st (Some e)))
     \<and> (readyState st = OPEN \<and> wf_view msg \<and> 0 < byteLength msg \<and> byteLength msg \<le> MESSAGE_SIZE_MAX
          \<and> tag < 256 \<and> int tag = js_rem (receivingTag st + 1) (int UINT8_MAX)
          \<and> peekLength (first_payload msg) = Inr (byteLength msg)
          \<and> peekType (first_payload msg) = Inr type \<longrightarrow>
        filter is_FireMessage
          (snd (feed peekLength peekType now (fst (onTimeout st (Some e))) (fst (sendChunked msg tag))))
         = [FireMessage (take (byteLength msg) (u8_buffer msg))]
        \<and> filter is_FireError
          (snd (feed peekLength peekType now (fst (onTimeout st (Some e))) (fst (sendChunked msg tag)))) = [])"
proof -
  have a: "timer_expires st key = Some (onTimeout st (Some e))"
    using assms by (simp add: timer_expires_def)
  have b: "\<forall>t \<in> set (em_types e). expectedMessagesByType (fst (onTimeout st (Some e))) t = None"
    by (simp add: onTimeout_def delete_types_apply)
  have c: "timers (fst (onTimeout st (Some e))) (chunk_key e) = None"
    "timers (fst (onTimeout st (Some e))) (msg_key e) = None"
    by (simp_all add: onTimeout_def clearTimeout_def)
  have d: "filter is_TimeoutCallback (snd (onTimeout st (Some e))) = [TimeoutCallback (em_timeoutCallback e)]"
    "FireClose \<notin> set (snd (onTimeout st (Some e)))"
    by (simp_all add: onTimeout_def is_event_simps)
  have f: "buffer (fst (onTimeout st (Some e))) = None"
    "readyState (fst (onTimeout st (Some e))) = readyState st"
    by (simp_all add: onTimeout_def)
  have g: "filter is_FireMessage
          (snd (feed peekLength peekType now (fst (onTimeout st (Some e))) (fst (sendChunked msg tag))))
         = [FireMessage (take (byteLength msg) (u8_buffer msg))]
        \<and> filter is_FireError
          (snd (feed peekLength peekType now (fst (onTimeout st (Some e))) (fst (sendChunked msg tag)))) = []"
    if "readyState st = OPEN" "wf_view msg" "0 < byteLength msg" "byteLength msg \<le> MESSAGE_SIZE_MAX"
      "tag < 256" "int tag = js_rem (receivingTag st + 1) (int UINT8_MAX)"
      "peekLength (first_payload msg) = Inr (byteLength msg)" "peekType (first_payload msg) = Inr type"
    using receive_sent [where peekLength = peekLength and peekType = peekType and now = now,
        OF that(2,3,4,5) onTimeout_idle [OF that(1)] that(6,7,8)]
    by simp
  show ?thesis
    using a b c d f g by blast
qed

text \<open>
  The chunk timer of the expectation for types 1 and 2 expires; afterwards the frame of
  14 bytes arrives under tag 0.
\<close>

theorem timeout_policy_witness:
  "timer_expires ex_channel ''chunk-1:2'' = Some (onTimeout ex_channel (Some ex_expected))
   \<and> expectedMessagesByType (fst (onTimeout ex_channel (Some ex_expected))) 1 = None
   \<and> expectedMessagesByType (fst (onTimeout ex_channel (Some ex_expected))) 2 = None
   \<and> filter is_TimeoutCallback (snd (onTimeout ex_channel (Some ex_expected))) = [TimeoutCallback 7]
   \<and> readyState (fst (onTimeout ex_channel (Some ex_expected))) = OPEN
   \<and> filter is_FireMessage
        (snd (feed (Message_peekLength ex_magic) (Message_peekType ex_magic) 0
           (fst (onTimeout ex_channel (Some ex_expected))) (fst (sendChunked (from_bytes ex_frame) 0))))
       = [FireMessage ex_frame]"
proof -
  have m: "wf_view (from_bytes ex_frame)" "0 < byteLength (from_bytes ex_frame)"
    "byteLength (from_bytes ex_frame) \<le> MESSAGE_SIZE_MAX"
    "int 0 = js_rem (receivingTag ex_channel + 1) (int UINT8_MAX)"
    by (simp_all add: wf_view_def from_bytes_def ex_frame_def MESSAGE_SIZE_MAX_def
        ex_channel_fields js_rem_def)
  have t: "take (byteLength (from_bytes ex_frame)) (u8_buffer (from_bytes ex_frame)) = ex_frame"
    by (simp add: from_bytes_def)
  show ?thesis
    using timeout_policy [where peekLength = "Message_peekLength ex_magic"
        and peekType = "Message_peekType ex_magic" and now = 0 and msg = "from_bytes ex_frame"
        and tag = 0 and type = 6, OF ex_channel_fields(3)] m ex_frame_peek
    by (simp add: ex_expected_fields ex_channel_fields t)
qed

section \<open>DataChannel: confirming an expected message\<close>

text \<open>
  Claim C7. \<^verbatim>\<open>confirmExpectedMessage(type, success)\<close>: when no expectation is registered for
  the type, the state is unchanged and nothing is called. Otherwise both timers of the
  expectation are cancelled, no type of the expectation has an entry in the map
  afterwards, and the timeout callback is called (once) exactly when success is false.
\<close>

theorem confirm_policy:
  "(case expectedMessagesByType st type of
      None \<Rightarrow> confirmExpectedMessage st type success = (st, [])
    | Some e \<Rightarrow>
        timers (fst (confirmExpectedMessage st type success)) (chunk_key e) = None
        \<and> timers (fst (confirmExpectedMessage st type success)) (msg_key e) = None
        \<and> (\<forall>t \<in> set (em_types e).
              expectedMessagesByType (fst (confirmExpectedMessage st type success)) t = None)
        \<and> snd (confirmExpectedMessage st type success)
            = (if success then [] else [TimeoutCallback (em_timeoutCallback e)]))"
  by (simp add: confirmExpectedMessage_def clearTimeout_def delete_types_apply split: option.split)

text \<open>
  On the channel that expects types 1 and 2: type 2 is confirmed without and with
  success, and type 3, which nobody expects, is confirmed.
\<close>

theorem confirm_policy_witness:
  "expectedMessagesByType ex_channel 2 = Some ex_expected
   \<and> timers ex_channel ''chunk-1:2'' = Some (ex_expected, 5000)
   \<and> timers (fst (confirmExpectedMessage ex_channel 2 False)) ''chunk-1:2'' = None
   \<and> timers (fst (confirmExpectedMessage ex_channel 2 False)) ''msg-1:2'' = None
   \<and> expectedMessagesByType (fst (confirmExpectedMessage ex_channel 2 False)) 1 = None
   \<and> expectedMessagesByType (fst (confirmExpectedMessage ex_channel 2 False)) 2 = None
   \<and> snd (confirmExpectedMessage ex_channel 2 False) = [TimeoutCallback 7]
   \<and> snd (confirmExpectedMessage ex_channel 2 True) = []
   \<and> confirmExpectedMessage ex_channel 3 False = (ex_channel, [])"
proof -
  have n: "expectedMessagesByType ex_channel 3 = None"
    by (simp add: ex_channel_def expectMessage_def DataChannel_new_def set_types_def Let_def)
  show ?thesis
    using confirm_policy [of ex_channel 2 False] confirm_policy [of ex_channel 2 True]
      confirm_policy [of ex_channel 3 False]
    by (simp add: ex_channel_fields ex_expected_fields n)
qed

section \<open>DataChannel: expecting a message\<close>

text \<open>
  Claim C8, amended. \<^verbatim>\<open>expectMessage\<close> with a non-empty list of types registers the new
  expectation under every type of the list, replacing the entry that was there, and arms
  its two timers under the keys chunk-<id> and msg-<id>, replacing timers of the same
  keys. The entries of all other types and the timers of all other keys are left as they
  were.
\<close>

theorem expect_policy:
  assumes "types = (case types_arg of OneType t \<Rightarrow> [t] | TypeArray ts \<Rightarrow> ts)"
    and "msgTimeout = (case msgTimeout_arg of None \<Rightarrow> MESSAGE_TIMEOUT | Some t \<Rightarrow> t)"
    and "chunkTimeout = (case chunkTimeout_arg of None \<Rightarrow> CHUNK_TIMEOUT | Some t \<Rightarrow> t)"
    and "e = ExpectedMessage_new types timeoutCallback msgTimeout chunkTimeout"
    and "st' = expectMessage st types_arg timeoutCallback msgTimeout_arg chunkTimeout_arg"
    and "types \<noteq> []"
  shows "(\<forall>t \<in> set types. expectedMessagesByType st' t = Some e)
     \<and> (\<forall>t. t \<notin> set types \<longrightarrow> expectedMessagesByType st' t = expectedMessagesByType st t)
     \<and> timers st' (chunk_key e) = Some (e, chunkTimeout)
     \<and> timers st' (msg_key e) = Some (e, msgTimeout)
     \<and> (\<forall>k. k \<noteq> chunk_key e \<and> k \<noteq> msg_key e \<longrightarrow> timers st' k = timers st k)"
proof -
  have ne: "chunk_key e \<noteq> msg_key e"
    by (simp add: chunk_key_def msg_key_def)
  have st': "st' = st\<lparr>expectedMessagesByType := set_types types e (expectedMessagesByType st),
      timers := resetTimeout (msg_key e) e msgTimeout
                  (resetTimeout (chunk_key e) e chunkTimeout (timers st))\<rparr>"
    using assms by (simp add: expectMessage_def Let_def)
  show ?thesis
    using ne by (simp add: st' set_types_apply resetTimeout_def clearTimeout_def)
qed

text \<open>The channel that expects types 1 and 2, with the default timeouts.\<close>

theorem expect_policy_witness:
  "expectedMessagesByType ex_channel 1 = Some ex_expected
   \<and> expectedMessagesByType ex_channel 2 = Some ex_expected
   \<and> timers ex_channel ''chunk-1:2'' = Some (ex_expected, CHUNK_TIMEOUT)
   \<and> timers ex_channel ''msg-1:2'' = Some (ex_expected, MESSAGE_TIMEOUT)
   \<and> timers ex_channel ''chunk-1'' = None"
proof -
  have a: "[1, 2] = (case TypeArray [1, 2] of OneType t \<Rightarrow> [t] | TypeArray ts \<Rightarrow> ts)"
    and b: "MESSAGE_TIMEOUT = (case None of None \<Rightarrow> MESSAGE_TIMEOUT | Some t \<Rightarrow> t)"
    and c: "CHUNK_TIMEOUT = (case None of None \<Rightarrow> CHUNK_TIMEOUT | Some t \<Rightarrow> t)"
    and d: "[1, 2] \<noteq> ([] :: nat list)"
    by simp_all
  have k: "''chunk-1'' \<noteq> chunk_key ex_expected \<and> ''chunk-1'' \<noteq> msg_key ex_expected"
    by (simp add: ex_expected_fields)
  have z: "timers (DataChannel_new OPEN) ''chunk-1'' = None"
    by (simp add: DataChannel_new_def)
  show ?thesis
    using expect_policy [OF a b c ex_expected_def ex_channel_def d] k z
    by (simp add: ex_expected_fields)
qed

text \<open>
  Claim C8 as stated fails: on the channel that expects types 1 and 2 (callback 7),
  \<^verbatim>\<open>expectMessage(2, callback 8)\<close> is called. Afterwards the earlier expectation still has
  its entry under type 1 and both of its timers; when its chunk timer expires, callback 7
  is called and the entry of the new expectation under type 2 is removed.
\<close>

theorem expect_policy_counterexample:
  "expectedMessagesByType (expectMessage ex_channel (OneType 2) 8 None None) 1 = Some ex_expected
   \<and> expectedMessagesByType (expectMessage ex_channel (OneType 2) 8 None None) 2
       = Some (ExpectedMessage_new [2] 8 MESSAGE_TIMEOUT CHUNK_TIMEOUT)
   \<and> timers (expectMessage ex_channel (OneType 2) 8 None None) ''chunk-1:2'' = Some (ex_expected, 5000)
   \<and> timers (expectMessage ex_channel (OneType 2) 8 None None) ''msg-1:2'' = Some (ex_expected, 3200000)
   \<and> snd (the (timer_expires (expectMessage ex_channel (OneType 2) 8 None None) ''chunk-1:2''))
       = [TimeoutCallback 7, LogE TimeoutReceiving]
   \<and> expectedMessagesByType
        (fst (the (timer_expires (expectMessage ex_channel (OneType 2) 8 None None) ''chunk-1:2''))) 2 = None"
proof -
  define st1 where "st1 = expectMessage ex_channel (OneType 2) 8 None None"
  define e2 where "e2 = ExpectedMessage_new [2] 8 MESSAGE_TIMEOUT CHUNK_TIMEOUT"
  have a: "[2] = (case OneType 2 of OneType t \<Rightarrow> [t] | TypeArray ts \<Rightarrow> ts)"
    and b: "MESSAGE_TIMEOUT = (case None of None \<Rightarrow> MESSAGE_TIMEOUT | Some t \<Rightarrow> t)"
    and c: "CHUNK_TIMEOUT = (case None of None \<Rightarrow> CHUNK_TIMEOUT | Some t \<Rightarrow> t)"
    and d: "[2] \<noteq> ([] :: nat list)"
    by simp_all
  have keys: "chunk_key e2 = ''chunk-2''" "msg_key e2 = ''msg-2''"
    by (simp_all add: e2_def ExpectedMessage_new_def chunk_key_def msg_key_def string_of_nat.simps)
  have st1: "expectedMessagesByType st1 1 = Some ex_expected"
    "expectedMessagesByType st1 2 = Some e2"
    "timers st1 ''chunk-1:2'' = Some (ex_expected, 5000)"
    "timers st1 ''msg-1:2'' = Some (ex_expected, 3200000)"
    by (simp_all add: st1_def e2_def expectMessage_def Let_def set_types_apply resetTimeout_def
        clearTimeout_def keys [unfolded e2_def] ex_channel_fields del: One_nat_def)
  have fire: "timer_expires st1 ''chunk-1:2'' = Some (onTimeout st1 (Some ex_expected))"
    by (simp add: timer_expires_def st1)
  have after: "snd (onTimeout st1 (Some ex_expected)) = [TimeoutCallback 7, LogE TimeoutReceiving]"
    "expectedMessagesByType (fst (onTimeout st1 (Some ex_expected))) 2 = None"
    by (simp_all add: onTimeout_def ex_expected_fields delete_types_apply)
  show ?thesis
    using st1 fire after unfolding st1_def e2_def by simp
qed

section \<open>DataChannel: the number of chunks of a message\<close>

text \<open>
  Claim C10. For a message of at most MESSAGE_SIZE_MAX bytes, \<^verbatim>\<open>send\<close> does not throw and
  hands exactly the ceiling of |msg| / (CHUNK_SIZE_MAX - 1) chunks to \<^verbatim>\<open>sendChunk\<close>; the
  sending tag advances by one modulo 255. For a message of no bytes no chunk is emitted,
  and the sending tag advances all the same.
\<close>

theorem send_chunk_count:
  assumes "wf_view msg" and "byteLength msg \<le> MESSAGE_SIZE_MAX"
  shows "snd (snd (send st msg)) = None
     \<and> length (fst (snd (send st msg))) = (byteLength msg + (CHUNK_SIZE_MAX - 2)) div (CHUNK_SIZE_MAX - 1)
     \<and> sendingTag (fst (send st msg)) = (sendingTag st + 1) mod 255
     \<and> (byteLength msg = 0 \<longrightarrow> fst (snd (send st msg)) = [])"
proof -
  have "length (fst (sendChunked msg (sendingTag st)))
      = (byteLength msg + (CHUNK_SIZE_MAX - 2)) div (CHUNK_SIZE_MAX - 1)"
    using loop_count [OF assms(1) order_refl] by (simp add: sendChunked_def)
  moreover have "byteLength msg = 0 \<longrightarrow> fst (sendChunked msg (sendingTag st)) = []"
    by (simp add: sendChunked_def loop_zero)
  ultimately show ?thesis
    by (simp add: send_ok [OF assms])
qed

text \<open>The frame of 14 bytes goes out in one chunk, the empty message in none.\<close>

theorem send_chunk_count_witness:
  "wf_view (from_bytes ex_frame) \<and> byteLength (from_bytes ex_frame) \<le> MESSAGE_SIZE_MAX
   \<and> length (fst (snd (send (DataChannel_new OPEN) (from_bytes ex_frame)))) = 1
   \<and> sendingTag (fst (send (DataChannel_new OPEN) (from_bytes ex_frame))) = 1
   \<and> wf_view (from_bytes []) \<and> fst (snd (send (DataChannel_new OPEN) (from_bytes []))) = []
   \<and> sendingTag (fst (send (DataChannel_new OPEN) (from_bytes []))) = 1"
proof -
  have a: "wf_view (from_bytes ex_frame)" "byteLength (from_bytes ex_frame) \<le> MESSAGE_SIZE_MAX"
    and b: "wf_view (from_bytes [])" "byteLength (from_bytes []) \<le> MESSAGE_SIZE_MAX"
    by (simp_all add: wf_view_def from_bytes_def ex_frame_def MESSAGE_SIZE_MAX_def)
  have n: "byteLength (from_bytes ex_frame) = 14" "byteLength (from_bytes []) = 0"
    "sendingTag (DataChannel_new OPEN) = 0"
    by (simp_all add: from_bytes_def ex_frame_def DataChannel_new_def)
  show ?thesis
    using send_chunk_count [OF a, of "DataChannel_new OPEN"]
      send_chunk_count [OF b, of "DataChannel_new OPEN"] a b
    by (simp add: n CHUNK_SIZE_MAX_def)
qed

end
